theory Spec2Isabelle
  imports Complex_Main "HOL-Library.Char_ord" "HOL-Library.List_Lexorder"
    "HOL-Library.Product_Lexorder"
begin

section \<open>Strings: the Python string methods the scripts call\<close>

text \<open>
  The string methods are modelled on ASCII strings, where they are what Python computes:
  \<open>str.strip\<close> removes leading and trailing white space (space, the controls 9 to 13
  and 28 to 31); \<open>str.title\<close> upper-cases a letter that follows an uncased character
  (or starts the string) and lower-cases a letter that follows a cased one.  Outside
  ASCII Python's casing and white space are those of Unicode, which these functions do
  not follow: a statement about them is a statement about ASCII strings, and says so
  with \<open>is_ascii\<close> where it quantifies over strings.
\<close>

definition is_ascii :: "string \<Rightarrow> bool" where
  "is_ascii s = list_all (\<lambda>c. (of_char c :: nat) < 128) s"

definition is_space :: "char \<Rightarrow> bool" where
  "is_space c =
     (let n = (of_char c :: nat) in n = 32 \<or> (9 \<le> n \<and> n \<le> 13) \<or> (28 \<le> n \<and> n \<le> 31))"

definition is_upper :: "char \<Rightarrow> bool" where
  "is_upper c = (let n = (of_char c :: nat) in 65 \<le> n \<and> n \<le> 90)"

definition is_lower :: "char \<Rightarrow> bool" where
  "is_lower c = (let n = (of_char c :: nat) in 97 \<le> n \<and> n \<le> 122)"

definition is_cased :: "char \<Rightarrow> bool" where
  "is_cased c = (is_upper c \<or> is_lower c)"

definition to_upper :: "char \<Rightarrow> char" where
  "to_upper c = (if is_lower c then char_of ((of_char c :: nat) - 32) else c)"

definition to_lower :: "char \<Rightarrow> char" where
  "to_lower c = (if is_upper c then char_of ((of_char c :: nat) + 32) else c)"

definition strip :: "string \<Rightarrow> string" where
  "strip s = rev (dropWhile is_space (rev (dropWhile is_space s)))"

fun title_from :: "bool \<Rightarrow> string \<Rightarrow> string" where
  "title_from prev [] = []"
| "title_from prev (c # cs) =
     (if prev then to_lower c else to_upper c) # title_from (is_cased c) cs"

definition title :: "string \<Rightarrow> string" where
  "title s = title_from False s"

text \<open>\<open>sub in s\<close>, \<open>s.endswith(suf)\<close> and \<open>os.path.join(root, file)\<close> (POSIX).\<close>

fun startswith :: "string \<Rightarrow> string \<Rightarrow> bool" where
  "startswith s [] = True"
| "startswith [] (p # ps) = False"
| "startswith (c # cs) (p # ps) = (c = p \<and> startswith cs ps)"

fun contains :: "string \<Rightarrow> string \<Rightarrow> bool" where
  "contains sub [] = (sub = [])"
| "contains sub (c # cs) = (startswith (c # cs) sub \<or> contains sub cs)"

definition endswith :: "string \<Rightarrow> string \<Rightarrow> bool" where
  "endswith s suf = startswith (rev s) (rev suf)"

definition path_join :: "string \<Rightarrow> string \<Rightarrow> string" where
  "path_join rootdir file =
     (if startswith file ''/'' then file
      else if rootdir = [] \<or> endswith rootdir ''/'' then rootdir @ file
      else rootdir @ ''/'' @ file)"

definition basename :: "string \<Rightarrow> string" where
  "basename p = rev (takeWhile (\<lambda>c. c \<noteq> CHR ''/'') (rev p))"

section \<open>Data frames\<close>

text \<open>
  A data frame is a list of labelled, typed columns and a list of rows, each row holding
  one cell per column.  \<open>NA\<close> is the missing marker (NaN, NaT or None).  The dtype of
  a column decides what \<open>select_dtypes(include=['number'])\<close> selects and whether the
  \<open>.str\<close> accessor is available.
\<close>

type_synonym date = "nat \<times> nat \<times> nat"

datatype dtype = Number | Object | Datetime

datatype cell = NA | Num real | Str string | Date date

datatype error = ReadError | KeyError | AttributeError | ValueError

record table =
  columns :: "(string \<times> dtype) list"
  rows :: "cell list list"

definition DataFrame :: table where
  "DataFrame = \<lparr>columns = [], rows = []\<rparr>"

definition empty :: "table \<Rightarrow> bool" where
  "empty df = (columns df = [] \<or> rows df = [])"

fun col_index :: "string \<Rightarrow> (string \<times> dtype) list \<Rightarrow> nat option" where
  "col_index n [] = None"
| "col_index n ((m, d) # cs) = (if m = n then Some 0 else map_option Suc (col_index n cs))"

definition has_col :: "string \<Rightarrow> table \<Rightarrow> bool" where
  "has_col n df = (col_index n (columns df) \<noteq> None)"

definition col_dtype :: "string \<Rightarrow> table \<Rightarrow> dtype option" where
  "col_dtype n df = map_option (\<lambda>i. snd (columns df ! i)) (col_index n (columns df))"

text \<open>The cell of row \<open>r\<close> under the column labelled \<open>n\<close>.\<close>

definition cell_at :: "(string \<times> dtype) list \<Rightarrow> string \<Rightarrow> cell list \<Rightarrow> cell" where
  "cell_at cols n r =
     (case col_index n cols of
        None \<Rightarrow> NA
      | Some i \<Rightarrow> if i < length r then r ! i else NA)"

text \<open>\<open>df[n] = f(df[n])\<close> for a column that exists: the column keeps its place, takes the
  dtype \<open>d\<close> of the new series, and every cell of it is mapped.\<close>

definition assign_col :: "string \<Rightarrow> dtype \<Rightarrow> (cell \<Rightarrow> cell) \<Rightarrow> table \<Rightarrow> table" where
  "assign_col n d f df =
     (case col_index n (columns df) of
        None \<Rightarrow> df
      | Some i \<Rightarrow> \<lparr>columns = (columns df)[i := (n, d)],
                   rows = map (\<lambda>r. r[i := f (r ! i)]) (rows df)\<rparr>)"

subsection \<open>\<open>pd.concat(dfs, ignore_index=True)\<close>\<close>

text \<open>
  The result has the union of the column labels in order of first appearance; a column
  keeps its dtype when every frame that has it agrees, and is an object column otherwise.
  The rows are those of the first frame, then those of the second, and so on, each
  re-indexed to the new columns with \<open>NA\<close> where its frame lacks the column.
\<close>

definition order_uniq :: "'a list \<Rightarrow> 'a list" where
  "order_uniq xs = rev (remdups (rev xs))"

definition common_dtype :: "string \<Rightarrow> table list \<Rightarrow> dtype" where
  "common_dtype n dfs =
     (let ds = concat (map (\<lambda>df. map snd (filter (\<lambda>c. fst c = n) (columns df))) dfs)
      in if ds = [] then Object
         else if list_all (\<lambda>d. d = hd ds) ds then hd ds else Object)"

definition reindex_row :: "(string \<times> dtype) list \<Rightarrow> string list \<Rightarrow> cell list \<Rightarrow> cell list" where
  "reindex_row cols names r = map (\<lambda>n. cell_at cols n r) names"

definition concat_df :: "table list \<Rightarrow> table" where
  "concat_df dfs =
     (let names = order_uniq (concat (map (\<lambda>df. map fst (columns df)) dfs))
      in \<lparr>columns = map (\<lambda>n. (n, common_dtype n dfs)) names,
          rows = concat (map (\<lambda>df. map (reindex_row (columns df) names) (rows df)) dfs)\<rparr>)"

section \<open>Loader\<close>

text \<open>
  The file system is a parameter: \<open>fs p\<close> is what \<open>pd.read_csv(p)\<close> does, returning a
  frame or raising.  The fixed date pattern \<open>%d-%m-%Y\<close> is a parameter too: \<open>parse s\<close>
  is the date that \<open>s\<close> denotes, or \<open>None\<close> when \<open>s\<close> does not match the pattern.
  \<open>parse_dmy\<close> is the pattern as pandas matches it: a day of one or two digits (or a
  blank and a digit), a month of one or two digits and a year of four digits, separated by
  hyphens, that make a date of the calendar in the range of nanosecond timestamps (from
  22 September 1677 to 11 April 2262).  Dates are ordered as year, month, day.
\<close>

definition digit_val :: "char \<Rightarrow> nat option" where
  "digit_val c =
     (let n = (of_char c :: nat) in if 48 \<le> n \<and> n \<le> 57 then Some (n - 48) else None)"

fun digits_val :: "string \<Rightarrow> nat option" where
  "digits_val [] = None"
| "digits_val cs =
     (if list_all (\<lambda>c. digit_val c \<noteq> None) cs
      then Some (foldl (\<lambda>a c. 10 * a + the (digit_val c)) 0 cs) else None)"

definition days_in_month :: "nat \<Rightarrow> nat \<Rightarrow> nat" where
  "days_in_month y m =
     (if m = 2 then (if y mod 4 = 0 \<and> (y mod 100 \<noteq> 0 \<or> y mod 400 = 0) then 29 else 28)
      else if m \<in> {4, 6, 9, 11} then 30 else 31)"

fun split_on :: "char \<Rightarrow> string \<Rightarrow> string list" where
  "split_on c [] = [[]]"
| "split_on c (x # xs) =
     (if x = c then [] # split_on c xs
      else (case split_on c xs of
              w # ws \<Rightarrow> (x # w) # ws
            | [] \<Rightarrow> [[x]]))"

definition day_field :: "string \<Rightarrow> nat option" where
  "day_field s =
     (if length s = 2 \<and> hd s = CHR '' '' then digits_val (tl s)
      else if length s = 1 \<or> length s = 2 then digits_val s
      else None)"

definition month_field :: "string \<Rightarrow> nat option" where
  "month_field s = (if length s = 1 \<or> length s = 2 then digits_val s else None)"

definition year_field :: "string \<Rightarrow> nat option" where
  "year_field s = (if length s = 4 then digits_val s else None)"

definition in_timestamp_range :: "date \<Rightarrow> bool" where
  "in_timestamp_range d = ((1677, 9, 22) \<le> d \<and> d \<le> (2262, 4, 11))"

definition parse_dmy :: "string \<Rightarrow> date option" where
  "parse_dmy s =
     (case split_on (CHR ''-'') s of
        [ds, ms, ys] \<Rightarrow>
          (case (day_field ds, month_field ms, year_field ys) of
             (Some d, Some m, Some y) \<Rightarrow>
               if 1 \<le> m \<and> m \<le> 12 \<and> 1 \<le> d \<and> d \<le> days_in_month y m
                  \<and> in_timestamp_range (y, m, d)
               then Some (y, m, d) else None
           | _ \<Rightarrow> None)
      | _ \<Rightarrow> None)"

text \<open>\<open>pd.to_datetime(series, format='%d-%m-%Y', errors='coerce')\<close>, cell by cell: a
  string that matches becomes its date, anything that does not becomes \<open>NA\<close>.\<close>

fun to_datetime :: "(string \<Rightarrow> date option) \<Rightarrow> cell \<Rightarrow> cell" where
  "to_datetime parse (Str s) = (case parse s of Some d \<Rightarrow> Date d | None \<Rightarrow> NA)"
| "to_datetime parse (Date d) = Date d"
| "to_datetime parse (Num x) = NA"
| "to_datetime parse NA = NA"

text \<open>The body of the \<open>try\<close>: read the file, then convert its \<open>date\<close> column
  (\<open>df['date']\<close> raises KeyError when the file has no such column).\<close>

definition load_one ::
  "(string \<Rightarrow> date option) \<Rightarrow> (string \<Rightarrow> error + table) \<Rightarrow> string \<Rightarrow> error + table" where
  "load_one parse fs p =
     (case fs p of
        Inl e \<Rightarrow> Inl e
      | Inr df \<Rightarrow>
          if has_col ''date'' df
          then Inr (assign_col ''date'' Datetime (to_datetime parse) df)
          else Inl KeyError)"

text \<open>The file system that holds one readable file, \<open>p\<close> with content \<open>df\<close>.\<close>

definition single_file :: "string \<Rightarrow> table \<Rightarrow> string \<Rightarrow> error + table" where
  "single_file p df q = (if q = p then Inr df else Inl ReadError)"

text \<open>The loop over the paths: \<open>except: continue\<close> drops a file whose body raised.\<close>

fun load_dfs ::
  "(string \<Rightarrow> date option) \<Rightarrow> (string \<Rightarrow> error + table) \<Rightarrow> string list \<Rightarrow> table list" where
  "load_dfs parse fs [] = []"
| "load_dfs parse fs (p # ps) =
     (case load_one parse fs p of
        Inl e \<Rightarrow> load_dfs parse fs ps
      | Inr df \<Rightarrow> df # load_dfs parse fs ps)"

text \<open>Whether the body of the \<open>try\<close> completes for a path, and the frame it
  appends to \<open>dfs\<close> when it does.\<close>

definition loads :: "(string \<Rightarrow> date option) \<Rightarrow> (string \<Rightarrow> error + table) \<Rightarrow> string \<Rightarrow> bool" where
  "loads parse fs p = (\<not> isl (load_one parse fs p))"

definition loaded :: "(string \<Rightarrow> date option) \<Rightarrow> (string \<Rightarrow> error + table) \<Rightarrow> string \<Rightarrow> table" where
  "loaded parse fs p = projr (load_one parse fs p)"

text \<open>\<open>load_files\<close> of \<open>uidai_analysis_code.py\<close>; \<open>files\<close> is what \<open>glob\<close> returned.\<close>

definition load_files ::
  "(string \<Rightarrow> date option) \<Rightarrow> (string \<Rightarrow> error + table) \<Rightarrow> string list \<Rightarrow> table" where
  "load_files parse fs files =
     (let dfs = load_dfs parse fs files in if dfs \<noteq> [] then concat_df dfs else DataFrame)"

text \<open>One turn of the loading loop of \<open>load_data_recursive\<close>: the frame stored in
  \<open>final_dfs[key]\<close> and the count stored in \<open>file_log[key]\<close> (initially 0).\<close>

definition load_key ::
  "(string \<Rightarrow> date option) \<Rightarrow> (string \<Rightarrow> error + table) \<Rightarrow> string list \<Rightarrow> table \<times> nat" where
  "load_key parse fs paths =
     (if paths = [] then (DataFrame, 0)
      else let dfs = load_dfs parse fs paths
           in if dfs \<noteq> [] then (concat_df dfs, length dfs) else (DataFrame, 0))"

section \<open>Normalizer\<close>

text \<open>The alias table of \<open>load_data_recursive\<close>, in the order it is written.\<close>

definition state_map :: "(string \<times> string) list" where
  "state_map =
     [(''Westbengal'', ''West Bengal''), (''West  Bengal'', ''West Bengal''),
      (''Uttaranchal'', ''Uttarakhand''), (''Orissa'', ''Odisha''),
      (''The Dadra And Nagar Haveli And Daman And Diu'', ''Dadra and Nagar Haveli'')]"

text \<open>\<open>series.replace(state_map)\<close> on one value: a value equal to a key is replaced.\<close>

definition replace_state :: "string \<Rightarrow> string" where
  "replace_state s = (case map_of state_map s of Some v \<Rightarrow> v | None \<Rightarrow> s)"

text \<open>What lines 105 and 106 do to one region name.\<close>

definition normalize_state :: "string \<Rightarrow> string" where
  "normalize_state s = title (strip (replace_state s))"

text \<open>The same on cells: \<open>replace\<close> leaves a cell that is no key alone, and the
  \<open>.str\<close> methods return the missing marker for a cell that is not a string.\<close>

fun replace_cell :: "cell \<Rightarrow> cell" where
  "replace_cell (Str s) = Str (replace_state s)"
| "replace_cell c = c"

fun str_strip :: "cell \<Rightarrow> cell" where
  "str_strip (Str s) = Str (strip s)"
| "str_strip c = NA"

fun str_title :: "cell \<Rightarrow> cell" where
  "str_title (Str s) = Str (title s)"
| "str_title c = NA"

definition norm_cell :: "cell \<Rightarrow> cell" where
  "norm_cell c = str_title (str_strip (replace_cell c))"

text \<open>\<open>df[num_cols] = df[num_cols].fillna(0)\<close> with
  \<open>num_cols = df.select_dtypes(include=['number']).columns\<close>.\<close>

fun fill_row :: "(string \<times> dtype) list \<Rightarrow> cell list \<Rightarrow> cell list" where
  "fill_row ((n, d) # cs) (c # r) =
     (if d = Number \<and> c = NA then Num 0 else c) # fill_row cs r"
| "fill_row cs r = r"

definition fillna_numeric :: "table \<Rightarrow> table" where
  "fillna_numeric df = \<lparr>columns = columns df, rows = map (fill_row (columns df)) (rows df)\<rparr>"

text \<open>
  One turn of the cleaning loop (lines 102 to 111).  The \<open>.str\<close> accessor raises
  AttributeError on a column that is not an object column; nothing catches it there.
\<close>

definition clean_df :: "table \<Rightarrow> error + table" where
  "clean_df df =
     (if \<not> empty df \<and> has_col ''state'' df then
        (if col_dtype ''state'' df = Some Object
         then Inr (fillna_numeric (assign_col ''state'' Object norm_cell df))
         else Inl AttributeError)
      else Inr df)"

text \<open>A frame whose \<open>state\<close> column holds only ASCII strings (and cells that are not
  strings).\<close>

definition ascii_states :: "table \<Rightarrow> bool" where
  "ascii_states df =
     list_all (\<lambda>r. case cell_at (columns df) ''state'' r of Str s \<Rightarrow> is_ascii s | _ \<Rightarrow> True)
       (rows df)"

text \<open>Cleaning a frame that has been cleaned already.\<close>

definition clean_twice :: "table \<Rightarrow> error + table" where
  "clean_twice df = (case clean_df df of Inl e \<Rightarrow> Inl e | Inr df' \<Rightarrow> clean_df df')"

text \<open>The keys of the alias table; a string with no white space at either end; and
  what the cleaning does to one row when the \<open>state\<close> column is at position \<open>i\<close>.\<close>

definition alias_keys :: "string set" where
  "alias_keys = fst ` set state_map"

definition trimmed :: "string \<Rightarrow> bool" where
  "trimmed s = (s = [] \<or> (\<not> is_space (hd s) \<and> \<not> is_space (last s)))"

definition norm_row :: "(string \<times> dtype) list \<Rightarrow> nat \<Rightarrow> cell list \<Rightarrow> cell list" where
  "norm_row cols i r = fill_row cols (r[i := norm_cell (r ! i)])"

section \<open>File discovery and \<open>load_data_recursive\<close>\<close>

record 'a by_key =
  enrol :: 'a
  bio :: 'a
  demo :: 'a

text \<open>The body of the inner loop (lines 58 to 69) for one file name of one directory.\<close>

definition scan_file :: "string \<Rightarrow> string list by_key \<Rightarrow> string \<Rightarrow> string list by_key" where
  "scan_file rootdir data_store file =
     (if \<not> endswith file ''.csv'' then data_store
      else let file_path = path_join rootdir file in
        if contains ''api_data_aadhar_enrolment'' file
          then data_store\<lparr>enrol := enrol data_store @ [file_path]\<rparr>
        else if contains ''api_data_aadhar_biometric'' file
          then data_store\<lparr>bio := bio data_store @ [file_path]\<rparr>
        else if contains ''api_data_aadhar_demographic'' file
          then data_store\<lparr>demo := demo data_store @ [file_path]\<rparr>
        else data_store)"

text \<open>\<open>walk\<close> is what \<open>os.walk\<close> yields: the directories with their file names.\<close>

definition scan_dir :: "string list by_key \<Rightarrow> string \<times> string list \<Rightarrow> string list by_key" where
  "scan_dir data_store d = foldl (scan_file (fst d)) data_store (snd d)"

definition scan :: "(string \<times> string list) list \<Rightarrow> string list by_key" where
  "scan walk = foldl scan_dir \<lparr>enrol = [], bio = [], demo = []\<rparr> walk"

text \<open>The conditions under which the chain of tests reaches each of the three appends;
  a store whose lists hold only paths of files of their own category; and a walk whose
  file names are plain, that is, contain no path separator.\<close>

definition is_enrol :: "string \<Rightarrow> bool" where
  "is_enrol f = (endswith f ''.csv'' \<and> contains ''api_data_aadhar_enrolment'' f)"

definition is_bio :: "string \<Rightarrow> bool" where
  "is_bio f = (endswith f ''.csv'' \<and> \<not> contains ''api_data_aadhar_enrolment'' f
       \<and> contains ''api_data_aadhar_biometric'' f)"

definition is_demo :: "string \<Rightarrow> bool" where
  "is_demo f = (endswith f ''.csv'' \<and> \<not> contains ''api_data_aadhar_enrolment'' f
       \<and> \<not> contains ''api_data_aadhar_biometric'' f
       \<and> contains ''api_data_aadhar_demographic'' f)"

definition sorted_store :: "string list by_key \<Rightarrow> bool" where
  "sorted_store st =
     ((\<forall>p\<in>set (enrol st). is_enrol (basename p))
      \<and> (\<forall>p\<in>set (bio st). is_bio (basename p))
      \<and> (\<forall>p\<in>set (demo st). is_demo (basename p)))"

definition plain_names :: "(string \<times> string list) list \<Rightarrow> bool" where
  "plain_names walk = (\<forall>d\<in>set walk. \<forall>f\<in>set (snd d). CHR ''/'' \<notin> set f)"

definition load_data_recursive ::
  "(string \<times> string list) list \<Rightarrow> (string \<Rightarrow> date option) \<Rightarrow> (string \<Rightarrow> error + table)
     \<Rightarrow> error + (table by_key \<times> nat by_key)" where
  "load_data_recursive walk parse fs =
     (let data_store = scan walk;
          e = load_key parse fs (enrol data_store);
          b = load_key parse fs (bio data_store);
          d = load_key parse fs (demo data_store);
          file_log = \<lparr>enrol = snd e, bio = snd b, demo = snd d\<rparr>
      in case clean_df (fst e) of
           Inl err \<Rightarrow> Inl err
         | Inr e' \<Rightarrow>
             (case clean_df (fst b) of
                Inl err \<Rightarrow> Inl err
              | Inr b' \<Rightarrow>
                  (case clean_df (fst d) of
                     Inl err \<Rightarrow> Inl err
                   | Inr d' \<Rightarrow> Inr (\<lparr>enrol = e', bio = b', demo = d'\<rparr>, file_log))))"

section \<open>Aggregator\<close>

text \<open>
  \<open>groupby(key)[col].sum()\<close>: the groups are the distinct keys that are not missing, in
  ascending order; the sum of a group skips missing cells.
\<close>

definition column :: "string \<Rightarrow> table \<Rightarrow> cell list" where
  "column n df = map (cell_at (columns df) n) (rows df)"

fun num_val :: "cell \<Rightarrow> real" where
  "num_val (Num x) = x"
| "num_val c = 0"




text \<open>
  The same when the key column may hold cells of any kind (a pincode read as a number or
  as text, a district name): the groups are the distinct cells that are not missing,
  numbers in ascending order before strings in ascending order before dates.  Sums are
  sums of real numbers: they are the code's as long as no total leaves the range of the
  64-bit integers the counters are read as.
\<close>

fun cell_rank :: "cell \<Rightarrow> nat \<times> real \<times> string \<times> date" where
  "cell_rank NA = (0, 0, [], (0, 0, 0))"
| "cell_rank (Num x) = (1, x, [], (0, 0, 0))"
| "cell_rank (Str s) = (2, 0, s, (0, 0, 0))"
| "cell_rank (Date d) = (3, 0, [], d)"

definition key_cells :: "cell list \<Rightarrow> cell list" where
  "key_cells ks = sort_key cell_rank (remdups (filter (\<lambda>c. c \<noteq> NA) ks))"

definition cell_sum :: "cell list \<Rightarrow> real list \<Rightarrow> cell \<Rightarrow> real" where
  "cell_sum ks vs k = sum_list (map snd (filter (\<lambda>kv. fst kv = k) (zip ks vs)))"

text \<open>Float division: \<open>None\<close> stands for the non-finite result of dividing by zero.\<close>

definition float_div :: "real \<Rightarrow> real \<Rightarrow> real option" where
  "float_div a b = (if b = 0 then None else Some (a / b))"

subsection \<open>\<open>q3_urban_rural_divide\<close> (lines 115 to 123)\<close>

record pin_row =
  pincode :: cell
  demo_age_17 :: real
  bio_age_17 :: real
  Total_Vol :: real
  Digital_Ratio :: "real option"

definition pin_sums :: "string \<Rightarrow> table \<Rightarrow> (cell \<times> real) list" where
  "pin_sums col df =
     (let ks = column ''pincode'' df; vs = map num_val (column col df)
      in map (\<lambda>k. (k, cell_sum ks vs k)) (key_cells ks))"

definition q3_urban_rural_divide :: "table \<Rightarrow> table \<Rightarrow> error + pin_row list" where
  "q3_urban_rural_divide df_bio df_demo =
     (if \<not> (has_col ''pincode'' df_demo \<and> has_col ''demo_age_17_'' df_demo
            \<and> has_col ''pincode'' df_bio \<and> has_col ''bio_age_17_'' df_bio)
      then Inl KeyError
      else
        let demo_pin = pin_sums ''demo_age_17_'' df_demo;
            bio_pin = pin_sums ''bio_age_17_'' df_bio;
            df_pin = map (\<lambda>(k, dv). (k, dv, (case map_of bio_pin k of Some bv \<Rightarrow> bv | None \<Rightarrow> 0)))
                         demo_pin;
            kept = filter (\<lambda>(k, dv, bv). dv + bv > 100) df_pin
        in Inr (map (\<lambda>(k, dv, bv).
                  \<lparr>pincode = k, demo_age_17 = dv, bio_age_17 = bv, Total_Vol = dv + bv,
                   Digital_Ratio = float_div dv (bv + 1)\<rparr>) kept))"

subsection \<open>\<open>ratio_df\<close> of the dashboard (lines 337 to 342)\<close>

text \<open>
  \<open>groupby('district').sum(numeric_only=True).sum(axis=1)\<close> adds, for each district,
  the cells of every numeric column other than the key.  The frame built from the two
  series has the union of their districts in ascending order, with zero where a series
  has no entry.  The ratio is computed on every row; rows with \<open>Bio\<close> at most 100 are
  then filtered out.  (The dashboard computes this when neither frame is empty.)
\<close>

record ratio_row =
  district :: cell
  Demo :: real
  Bio :: real
  Ratio :: "real option"

fun row_total :: "(string \<times> dtype) list \<Rightarrow> cell list \<Rightarrow> real" where
  "row_total ((n, d) # cs) (c # r) =
     (if d = Number \<and> n \<noteq> ''district'' then num_val c else 0) + row_total cs r"
| "row_total cs r = 0"

definition district_sums :: "table \<Rightarrow> (cell \<times> real) list" where
  "district_sums df =
     (let ks = column ''district'' df; vs = map (row_total (columns df)) (rows df)
      in map (\<lambda>k. (k, cell_sum ks vs k)) (key_cells ks))"

definition ratio_df :: "table \<Rightarrow> table \<Rightarrow> error + ratio_row list" where
  "ratio_df df_bio df_demo =
     (if \<not> (has_col ''district'' df_demo \<and> has_col ''district'' df_bio) then Inl KeyError
      else
        let demo_count = district_sums df_demo;
            bio_count = district_sums df_bio;
            index = sort_key cell_rank (remdups (map fst demo_count @ map fst bio_count));
            frame = map (\<lambda>k. (k, (case map_of demo_count k of Some v \<Rightarrow> v | None \<Rightarrow> 0),
                                  (case map_of bio_count k of Some v \<Rightarrow> v | None \<Rightarrow> 0))) index;
            with_ratio = map (\<lambda>(k, dv, bv).
                  \<lparr>district = k, Demo = dv, Bio = bv, Ratio = float_div dv (bv + 1)\<rparr>) frame
        in Inr (filter (\<lambda>row. Bio row > 100) with_ratio))"

subsection \<open>\<open>q4_load_volatility\<close> (lines 142 to 146)\<close>








section \<open>The loader of \<open>temo.py\<close>\<close>

text \<open>
  \<open>load_all_data\<close> cleans each file as it reads it and has no \<open>try\<close>: whatever a read
  or the cleaning raises reaches the caller, and \<open>pd.concat\<close> raises ValueError when it is
  given no frame.  Its alias table has three entries.
\<close>

definition temo_state_map :: "(string \<times> string) list" where
  "temo_state_map =
     [(''Westbengal'', ''West Bengal''), (''Uttaranchal'', ''Uttarakhand''),
      (''Orissa'', ''Odisha'')]"

fun temo_replace_cell :: "cell \<Rightarrow> cell" where
  "temo_replace_cell (Str s) = Str (case map_of temo_state_map s of Some v \<Rightarrow> v | None \<Rightarrow> s)"
| "temo_replace_cell c = c"

definition temo_clean_df :: "(string \<Rightarrow> date option) \<Rightarrow> table \<Rightarrow> error + table" where
  "temo_clean_df parse df =
     (if \<not> has_col ''date'' df then Inl KeyError
      else let df1 = assign_col ''date'' Datetime (to_datetime parse) df in
        if \<not> has_col ''state'' df1 then Inl KeyError
        else if col_dtype ''state'' df1 \<noteq> Some Object then Inl AttributeError
        else Inr (fillna_numeric
                    (assign_col ''state'' Object
                       (\<lambda>c. str_title (str_strip (temo_replace_cell c))) df1)))"

text \<open>The list comprehension \<open>[clean_df(pd.read_csv(f)) for f in glob(...)]\<close>.\<close>

fun temo_read_all ::
  "(string \<Rightarrow> date option) \<Rightarrow> (string \<Rightarrow> error + table) \<Rightarrow> string list \<Rightarrow> error + table list"
  where
  "temo_read_all parse fs [] = Inr []"
| "temo_read_all parse fs (f # files) =
     (case fs f of
        Inl e \<Rightarrow> Inl e
      | Inr df \<Rightarrow>
          (case temo_clean_df parse df of
             Inl e \<Rightarrow> Inl e
           | Inr df' \<Rightarrow>
               (case temo_read_all parse fs files of
                  Inl e \<Rightarrow> Inl e
                | Inr dfs \<Rightarrow> Inr (df' # dfs))))"

definition temo_concat :: "table list \<Rightarrow> error + table" where
  "temo_concat dfs = (if dfs = [] then Inl ValueError else Inr (concat_df dfs))"

definition temo_load ::
  "(string \<Rightarrow> date option) \<Rightarrow> (string \<Rightarrow> error + table) \<Rightarrow> string list \<Rightarrow> error + table" where
  "temo_load parse fs files =
     (case temo_read_all parse fs files of Inl e \<Rightarrow> Inl e | Inr dfs \<Rightarrow> temo_concat dfs)"

text \<open>The three arguments are what the three \<open>glob\<close> calls return.\<close>

definition load_all_data ::
  "(string \<Rightarrow> date option) \<Rightarrow> (string \<Rightarrow> error + table) \<Rightarrow> string list \<Rightarrow> string list
     \<Rightarrow> string list \<Rightarrow> error + (table \<times> table \<times> table)" where
  "load_all_data parse fs enrol_files bio_files demo_files =
     (case temo_load parse fs enrol_files of
        Inl e \<Rightarrow> Inl e
      | Inr df_enrol \<Rightarrow>
          (case temo_load parse fs bio_files of
             Inl e \<Rightarrow> Inl e
           | Inr df_bio \<Rightarrow>
               (case temo_load parse fs demo_files of
                  Inl e \<Rightarrow> Inl e
                | Inr df_demo \<Rightarrow> Inr (df_enrol, df_bio, df_demo))))"

section \<open>Properties of the string methods\<close>


lemma to_lower_idem: "to_lower (to_lower c) = to_lower c"
  by (auto simp: to_lower_def is_upper_def Let_def)

lemma to_upper_idem: "to_upper (to_upper c) = to_upper c"
  by (auto simp: to_upper_def is_lower_def Let_def)

lemma is_cased_to_lower: "is_cased (to_lower c) = is_cased c"
  by (auto simp: to_lower_def is_cased_def is_upper_def is_lower_def Let_def)

lemma is_cased_to_upper: "is_cased (to_upper c) = is_cased c"
  by (auto simp: to_upper_def is_cased_def is_upper_def is_lower_def Let_def)

lemma is_space_to_lower: "is_space (to_lower c) = is_space c"
  by (auto simp: to_lower_def is_space_def is_upper_def is_lower_def Let_def)

lemma is_space_to_upper: "is_space (to_upper c) = is_space c"
  by (auto simp: to_upper_def is_space_def is_upper_def is_lower_def Let_def)

lemma title_from_idem: "title_from p (title_from p s) = title_from p s"
  by (induction s arbitrary: p)
     (simp_all add: to_lower_idem to_upper_idem is_cased_to_lower is_cased_to_upper)

lemma title_idem: "title (title s) = title s"
  by (simp add: title_def title_from_idem)

lemma title_from_spaces: "map is_space (title_from p s) = map is_space s"
  by (induction s arbitrary: p) (simp_all add: is_space_to_lower is_space_to_upper)

lemma title_from_Nil: "(title_from p s = []) = (s = [])"
  by (cases s) simp_all

lemma strip_trimmed: "trimmed s \<Longrightarrow> strip s = s"
proof (cases "s = []")
  case True
  then show ?thesis by (simp add: strip_def)
next
  case False
  assume "trimmed s"
  with False have h: "\<not> is_space (hd s)" and l: "\<not> is_space (last s)"
    by (simp_all add: trimmed_def)
  from False h have 1: "dropWhile is_space s = s"
    by (cases s) simp_all
  from False l have 2: "dropWhile is_space (rev s) = rev s"
    by (cases "rev s") (simp_all add: last_rev[symmetric] hd_rev)
  show ?thesis by (simp add: strip_def 1 2)
qed

lemma trimmed_strip: "trimmed (strip s)"
proof -
  let ?a = "dropWhile is_space s"
  let ?b = "dropWhile is_space (rev ?a)"
  show ?thesis
  proof (cases "?b = []")
    case True
    then show ?thesis by (simp add: strip_def trimmed_def)
  next
    case False
    then have hb: "\<not> is_space (hd ?b)" by (rule hd_dropWhile)
    have "?a = [] \<Longrightarrow> ?b = []" by (simp only: rev.simps dropWhile.simps)
    with False have ane: "?a \<noteq> []" by blast
    then have ha: "\<not> is_space (hd ?a)" by (rule hd_dropWhile)
    have "last ?b = last (rev ?a)"
      using False by (metis dropWhile_eq_Nil_conv last_appendR takeWhile_dropWhile_id)
    then have lb: "\<not> is_space (last ?b)" using ha ane by (simp add: last_rev)
    have "strip s = rev ?b" by (simp add: strip_def)
    then show ?thesis using hb lb False by (simp add: trimmed_def hd_rev last_rev)
  qed
qed

lemma trimmed_title: "trimmed s \<Longrightarrow> trimmed (title s)"
proof (cases "s = []")
  case True
  then show ?thesis by (simp add: title_def trimmed_def)
next
  case False
  assume t: "trimmed s"
  have ne: "title s \<noteq> []" using False by (simp add: title_def title_from_Nil)
  have m: "map is_space (title s) = map is_space s"
    by (simp add: title_def title_from_spaces)
  have "is_space (hd (title s)) = hd (map is_space (title s))"
    using ne by (simp add: hd_map)
  also have "\<dots> = is_space (hd s)" using False by (simp add: m hd_map)
  finally have h: "is_space (hd (title s)) = is_space (hd s)" .
  have "is_space (last (title s)) = last (map is_space (title s))"
    using ne by (simp add: last_map)
  also have "\<dots> = is_space (last s)" using False by (simp add: m last_map)
  finally have l: "is_space (last (title s)) = is_space (last s)" .
  show ?thesis using t False ne h l by (simp add: trimmed_def)
qed

lemma strip_title_strip: "strip (title (strip s)) = title (strip s)"
  by (rule strip_trimmed) (rule trimmed_title, rule trimmed_strip)

lemma normalize_state_fixed:
  "map_of state_map s = None \<Longrightarrow> strip s = s \<Longrightarrow> title s = s \<Longrightarrow> normalize_state s = s"
  by (simp add: normalize_state_def replace_state_def)

lemma map_of_state_map_cases:
  "map_of state_map k = Some v \<Longrightarrow>
     (k, v) \<in> {(''Westbengal'', ''West Bengal''), (''West  Bengal'', ''West Bengal''),
      (''Uttaranchal'', ''Uttarakhand''), (''Orissa'', ''Odisha''),
      (''The Dadra And Nagar Haveli And Daman And Diu'', ''Dadra and Nagar Haveli'')}"
  by (auto simp: state_map_def split: if_splits)

lemma normalize_Westbengal:
  "normalize_state ''Westbengal'' = ''West Bengal''"
  by code_simp

lemma normalize_West_Bengal2:
  "normalize_state ''West  Bengal'' = ''West Bengal''"
  by code_simp

lemma normalize_Uttaranchal:
  "normalize_state ''Uttaranchal'' = ''Uttarakhand''"
  by code_simp

lemma normalize_Orissa:
  "normalize_state ''Orissa'' = ''Odisha''"
  by code_simp

lemma normalize_Dadra_alias:
  "normalize_state ''The Dadra And Nagar Haveli And Daman And Diu'' = ''Dadra And Nagar Haveli''"
  by code_simp


section \<open>Properties of the cleaning pass\<close>


lemma col_index_Some:
  "col_index n cols = Some i \<Longrightarrow> i < length cols \<and> fst (cols ! i) = n"
  by (induction cols arbitrary: i) (auto split: if_splits)

lemma col_index_update:
  "col_index n cols = Some i \<Longrightarrow> col_index n (cols[i := (n, d)]) = Some i"
  by (induction cols arbitrary: i) (auto split: if_splits)

lemma length_fill_row: "length (fill_row cols r) = length r"
  by (induction cols r rule: fill_row.induct) simp_all

lemma fill_row_idem: "fill_row cols (fill_row cols r) = fill_row cols r"
  by (induction cols r rule: fill_row.induct) simp_all

lemma fill_row_update:
  "i < length cols \<Longrightarrow> snd (cols ! i) \<noteq> Number \<Longrightarrow>
     fill_row cols (r[i := c]) = (fill_row cols r)[i := c]"
proof (induction cols r arbitrary: i rule: fill_row.induct)
  case (1 n d cs c' r)
  then show ?case by (cases i) simp_all
qed simp_all

lemma fill_row_nth_other:
  "i < length cols \<Longrightarrow> snd (cols ! i) \<noteq> Number \<Longrightarrow> i < length r \<Longrightarrow>
     fill_row cols r ! i = r ! i"
proof (induction cols r arbitrary: i rule: fill_row.induct)
  case (1 n d cs c' r)
  then show ?case by (cases i) simp_all
qed simp_all

lemma fill_row_nth_number:
  "i < length cols \<Longrightarrow> snd (cols ! i) = Number \<Longrightarrow> i < length r \<Longrightarrow>
     fill_row cols r ! i = (if r ! i = NA then Num 0 else r ! i)"
proof (induction cols r arbitrary: i rule: fill_row.induct)
  case (1 n d cs c' r)
  then show ?case by (cases i) simp_all
qed simp_all

lemma list_update_same_iff: "(xs[i := v] = xs) = (i < length xs \<longrightarrow> v = xs ! i)"
  by (metis list_update_beyond list_update_id not_le_imp_less nth_list_update_eq)

lemma normalize_state_key_moves: "k \<in> alias_keys \<Longrightarrow> normalize_state k \<noteq> k"
  unfolding alias_keys_def state_map_def
  using normalize_Westbengal normalize_West_Bengal2 normalize_Uttaranchal normalize_Orissa
    normalize_Dadra_alias by auto

lemma normalize_state_twice:
  "(normalize_state (normalize_state s) = normalize_state s) = (normalize_state s \<notin> alias_keys)"
proof
  assume "normalize_state (normalize_state s) = normalize_state s"
  then show "normalize_state s \<notin> alias_keys"
    using normalize_state_key_moves by blast
next
  let ?y = "normalize_state s"
  assume "?y \<notin> alias_keys"
  then have "map_of state_map ?y = None"
    by (simp add: alias_keys_def map_of_eq_None_iff)
  moreover have "strip ?y = ?y" by (simp add: normalize_state_def strip_title_strip)
  moreover have "title ?y = ?y" by (simp add: normalize_state_def title_idem)
  ultimately show "normalize_state ?y = ?y" by (rule normalize_state_fixed)
qed

lemma norm_cell_twice:
  "(norm_cell (norm_cell c) = norm_cell c) = (norm_cell c \<notin> Str ` alias_keys)"
proof (cases c)
  case (Str s)
  have "norm_cell (Str s) = Str (normalize_state s)" for s
    by (simp add: norm_cell_def normalize_state_def)
  then show ?thesis using Str normalize_state_twice[of s] by auto
qed (auto simp: norm_cell_def)


lemma clean_df_skip:
  "empty df \<or> \<not> has_col ''state'' df \<Longrightarrow> clean_df df = Inr df"
  by (auto simp: clean_df_def)

lemma clean_df_run:
  assumes "\<not> empty df" and "col_index ''state'' (columns df) = Some i"
  shows "clean_df df =
     (if snd (columns df ! i) = Object
      then Inr \<lparr>columns = columns df, rows = map (norm_row (columns df) i) (rows df)\<rparr>
      else Inl AttributeError)"
proof -
  from assms(2) have i: "i < length (columns df)" "fst (columns df ! i) = ''state''"
    using col_index_Some by blast+
  have "snd (columns df ! i) = Object \<Longrightarrow> (columns df)[i := (''state'', Object)] = columns df"
    using i by (metis list_update_id prod.collapse)
  then show ?thesis
    using assms
    by (simp add: clean_df_def has_col_def col_dtype_def assign_col_def fillna_numeric_def
        norm_row_def)
qed

lemma norm_row_twice:
  assumes "i < length cols" and "snd (cols ! i) = Object"
  shows "(norm_row cols i (norm_row cols i r) = norm_row cols i r)
           = (i < length r \<longrightarrow> norm_row cols i r ! i \<notin> Str ` alias_keys)"
proof -
  have o: "snd (cols ! i) \<noteq> Number" using assms(2) by simp
  let ?r' = "norm_row cols i r"
  have len: "length ?r' = length r" by (simp add: norm_row_def length_fill_row)
  have filled: "fill_row cols ?r' = ?r'" by (simp add: norm_row_def fill_row_idem)
  have "norm_row cols i ?r' = ?r'[i := norm_cell (?r' ! i)]"
    using fill_row_update[OF assms(1) o, of ?r'] filled by (simp add: norm_row_def[of cols i ?r'])
  then have 1: "(norm_row cols i ?r' = ?r') = (i < length r \<longrightarrow> norm_cell (?r' ! i) = ?r' ! i)"
    by (simp add: list_update_same_iff len)
  have 2: "i < length r \<Longrightarrow> ?r' ! i = norm_cell (r ! i)"
    using fill_row_nth_other[OF assms(1) o, of "r[i := norm_cell (r ! i)]"]
    by (simp add: norm_row_def)
  show ?thesis using 1 2 norm_cell_twice[of "r ! i"] by auto
qed


section \<open>Properties of the loader\<close>


lemma load_dfs_filter:
  "load_dfs parse fs ps = map (loaded parse fs) (filter (loads parse fs) ps)"
  by (induction ps) (auto simp: loads_def loaded_def split: sum.splits)

lemma load_key_fst: "fst (load_key parse fs paths) = load_files parse fs paths"
  by (cases paths) (simp_all add: load_key_def load_files_def Let_def)

lemma rows_concat_df:
  "rows (concat_df dfs) =
     concat (map (\<lambda>df. map (reindex_row (columns df) (map fst (columns (concat_df dfs)))) (rows df)) dfs)"
  by (simp add: concat_df_def Let_def comp_def)

lemma length_rows_concat_df:
  "length (rows (concat_df dfs)) = sum_list (map (\<lambda>df. length (rows df)) dfs)"
  by (simp add: concat_df_def Let_def length_concat comp_def)

lemma rows_assign_col: "length (rows (assign_col n d f df)) = length (rows df)"
  by (simp add: assign_col_def split: option.splits)

lemma load_one_rows:
  "load_one parse fs p = Inr df' \<Longrightarrow> \<exists>df. fs p = Inr df \<and> length (rows df') = length (rows df)"
  by (auto simp: load_one_def rows_assign_col split: sum.splits if_splits)

lemma loaded_rows:
  "loads parse fs p \<Longrightarrow> length (rows (loaded parse fs p)) = length (rows (projr (fs p)))"
proof -
  assume "loads parse fs p"
  then obtain df' where "load_one parse fs p = Inr df'"
    by (cases "load_one parse fs p") (simp_all add: loads_def)
  then show ?thesis using load_one_rows[of parse fs p df'] by (auto simp: loaded_def)
qed

lemma set_order_uniq: "set (order_uniq xs) = set xs"
  by (simp add: order_uniq_def)

lemma order_uniq_absorb:
  "distinct xs \<Longrightarrow> set ys \<subseteq> set xs \<Longrightarrow> order_uniq (xs @ ys) = xs"
proof -
  assume d: "distinct xs" and s: "set ys \<subseteq> set xs"
  from s have "set (rev ys) \<subseteq> set (rev xs)" by simp
  then have "remdups (rev ys @ rev xs) = remdups (rev xs)" by (rule remdups_append)
  also have "\<dots> = rev xs" using d by (simp add: distinct_remdups_id)
  finally show ?thesis by (simp add: order_uniq_def)
qed

lemma col_index_nth:
  "distinct (map fst cols) \<Longrightarrow> j < length cols \<Longrightarrow> col_index (fst (cols ! j)) cols = Some j"
proof (induction cols arbitrary: j)
  case Nil
  then show ?case by simp
next
  case (Cons c cols)
  obtain m d where c: "c = (m, d)" by (cases c)
  show ?case
  proof (cases j)
    case 0
    then show ?thesis by (simp add: c)
  next
    case (Suc j')
    with Cons.prems have "j' < length cols" "distinct (map fst cols)" by simp_all
    then have "col_index (fst (cols ! j')) cols = Some j'" by (rule Cons.IH[rotated])
    moreover have "fst (cols ! j') \<noteq> m"
      using Cons.prems \<open>j' < length cols\<close> by (auto simp: c)
    ultimately show ?thesis by (simp add: c Suc)
  qed
qed

lemma reindex_row_same:
  assumes "distinct (map fst cols)" and "length r = length cols"
  shows "reindex_row cols (map fst cols) r = r"
proof (rule nth_equalityI)
  show "length (reindex_row cols (map fst cols) r) = length r"
    using assms(2) by (simp add: reindex_row_def)
next
  fix j assume "j < length (reindex_row cols (map fst cols) r)"
  then have j: "j < length cols" by (simp add: reindex_row_def)
  then show "reindex_row cols (map fst cols) r ! j = r ! j"
    using col_index_nth[OF assms(1) j] assms(2) by (simp add: reindex_row_def cell_at_def)
qed

lemma concat_names_same:
  assumes "dfs \<noteq> []" and "\<forall>df\<in>set dfs. columns df = cols" and "distinct (map fst cols)"
  shows "order_uniq (concat (map (\<lambda>df. map fst (columns df)) dfs)) = map fst cols"
proof -
  from assms(1) obtain d ds where dfs: "dfs = d # ds" by (cases dfs) auto
  have "set (concat (map (\<lambda>df. map fst (columns df)) ds)) \<subseteq> set (map fst cols)"
    using assms(2) by (auto simp: dfs)
  then show ?thesis
    using assms(2,3) by (simp add: dfs order_uniq_absorb)
qed

lemma rows_concat_df_same:
  assumes "dfs \<noteq> []" and "\<forall>df\<in>set dfs. columns df = cols" and "distinct (map fst cols)"
    and "\<forall>df\<in>set dfs. \<forall>r\<in>set (rows df). length r = length cols"
  shows "rows (concat_df dfs) = concat (map rows dfs)"
proof -
  have n: "map fst (columns (concat_df dfs)) = map fst cols"
    using concat_names_same[OF assms(1-3)] by (simp add: concat_df_def Let_def comp_def)
  have "map (reindex_row (columns df) (map fst cols)) (rows df) = rows df" if "df \<in> set dfs" for df
    using that assms(2,4) reindex_row_same[OF assms(3)] by (simp add: map_idI)
  then show ?thesis
    by (subst rows_concat_df) (simp add: n cong: map_cong)
qed



lemma col_index_None: "(col_index n cols = None) = (n \<notin> fst ` set cols)"
  by (induction cols) (auto split: if_splits)

lemma load_one_date:
  assumes "fs p = Inr df" and "col_index ''date'' (columns df) = Some i"
  shows "load_one parse fs p =
     Inr \<lparr>columns = (columns df)[i := (''date'', Datetime)],
          rows = map (\<lambda>r. r[i := to_datetime parse (r ! i)]) (rows df)\<rparr>"
  using assms by (simp add: load_one_def has_col_def assign_col_def)

lemma loads_in_load_dfs:
  "p \<in> set files \<Longrightarrow> loads parse fs p \<Longrightarrow> loaded parse fs p \<in> set (load_dfs parse fs files)"
  by (simp add: load_dfs_filter)

lemma columns_concat_df_names:
  "set (map fst (columns (concat_df dfs))) = (\<Union>df\<in>set dfs. set (map fst (columns df)))"
  by (simp add: concat_df_def Let_def comp_def set_order_uniq)

lemma cell_at_reindex:
  assumes "n \<in> set names"
  shows "cell_at (map (\<lambda>m. (m, f m)) names) n (reindex_row cols names r) = cell_at cols n r"
proof -
  from assms have "col_index n (map (\<lambda>m. (m, f m)) names) \<noteq> None"
    by (auto simp: col_index_None image_iff)
  then obtain j where j: "col_index n (map (\<lambda>m. (m, f m)) names) = Some j" by auto
  from col_index_Some[OF j] have jl: "j < length names" by simp
  with col_index_Some[OF j] have "names ! j = n" by simp
  with jl show ?thesis
    by (simp add: cell_at_def[of "map (\<lambda>m. (m, f m)) names"] j reindex_row_def)
qed

lemma cell_at_concat_df:
  assumes "df \<in> set dfs" and "has_col n df"
  shows "cell_at (columns (concat_df dfs)) n
           (reindex_row (columns df) (map fst (columns (concat_df dfs))) r)
         = cell_at (columns df) n r"
proof -
  let ?names = "order_uniq (concat (map (\<lambda>df. map fst (columns df)) dfs))"
  from assms have "n \<in> set ?names"
    by (auto simp: set_order_uniq has_col_def col_index_None)
  then show ?thesis
    by (simp add: concat_df_def Let_def comp_def cell_at_reindex)
qed

lemma has_col_concat_df:
  assumes "df \<in> set dfs" and "has_col n df"
  shows "has_col n (concat_df dfs)"
proof -
  from assms(2) have "n \<in> set (map fst (columns df))"
    by (simp add: has_col_def col_index_None)
  with assms(1) have "n \<in> (\<Union>df\<in>set dfs. set (map fst (columns df)))" by blast
  then have "n \<in> set (map fst (columns (concat_df dfs)))"
    by (simp only: columns_concat_df_names)
  then show ?thesis by (simp add: has_col_def col_index_None)
qed

lemma row_in_concat_df:
  assumes "df \<in> set dfs" and "r \<in> set (rows df)"
  shows "reindex_row (columns df) (map fst (columns (concat_df dfs))) r
           \<in> set (rows (concat_df dfs))"
proof -
  define N where "N = map fst (columns (concat_df dfs))"
  have "reindex_row (columns df) N r \<in> set (map (reindex_row (columns df) N) (rows df))"
    using assms(2) by simp
  with assms(1)
  have "reindex_row (columns df) N r
          \<in> set (concat (map (\<lambda>df. map (reindex_row (columns df) N) (rows df)) dfs))"
    by auto
  then have "reindex_row (columns df) N r \<in> set (rows (concat_df dfs))"
    by (simp only: N_def rows_concat_df[symmetric])
  then show ?thesis by (simp only: N_def)
qed

lemma loads_iff:
  "loads parse fs p = (\<not> isl (fs p) \<and> has_col ''date'' (projr (fs p)))"
  by (cases "fs p") (simp_all add: loads_def load_one_def)

lemma loaded_eq:
  "loads parse fs p \<Longrightarrow>
     loaded parse fs p = assign_col ''date'' Datetime (to_datetime parse) (projr (fs p))"
  by (cases "fs p") (simp_all add: loads_iff loaded_def load_one_def)

section \<open>Properties of file discovery\<close>

lemma startswith_slash: "startswith s ''/'' = (\<exists>t. s = CHR ''/'' # t)"
  by (cases s) auto

lemma basename_path_join:
  assumes "CHR ''/'' \<notin> set f"
  shows "basename (path_join d f) = f"
proof -
  have nf: "\<not> startswith f ''/''" using assms by (auto simp: startswith_slash)
  have tw: "takeWhile (\<lambda>c. c \<noteq> CHR ''/'') (rev f @ xs) = rev f @ takeWhile (\<lambda>c. c \<noteq> CHR ''/'') xs"
    for xs by (rule takeWhile_append2) (use assms in auto)
  show ?thesis
  proof (cases "d = [] \<or> endswith d ''/''")
    case True
    then have "takeWhile (\<lambda>c. c \<noteq> CHR ''/'') (rev d) = []"
      by (auto simp: endswith_def startswith_slash)
    then show ?thesis using True nf by (simp add: path_join_def basename_def tw)
  next
    case False
    then show ?thesis using nf by (simp add: path_join_def basename_def tw)
  qed
qed

lemma scan_file_cases:
  "scan_file d st f =
     (if is_enrol f then st\<lparr>enrol := enrol st @ [path_join d f]\<rparr>
      else if is_bio f then st\<lparr>bio := bio st @ [path_join d f]\<rparr>
      else if is_demo f then st\<lparr>demo := demo st @ [path_join d f]\<rparr>
      else st)"
  by (simp add: scan_file_def is_enrol_def is_bio_def is_demo_def Let_def)

lemma scan_file_sorted:
  "CHR ''/'' \<notin> set f \<Longrightarrow> sorted_store st \<Longrightarrow> sorted_store (scan_file d st f)"
  by (simp add: scan_file_cases sorted_store_def basename_path_join)

lemma scan_file_enrol:
  "set (enrol (scan_file d st f)) = set (enrol st) \<union> (if is_enrol f then {path_join d f} else {})"
  by (simp add: scan_file_cases)

lemma scan_file_bio:
  "set (bio (scan_file d st f)) = set (bio st) \<union> (if is_bio f then {path_join d f} else {})"
  by (auto simp: scan_file_cases is_bio_def is_enrol_def)

lemma scan_file_demo:
  "set (demo (scan_file d st f)) = set (demo st) \<union> (if is_demo f then {path_join d f} else {})"
  by (auto simp: scan_file_cases is_bio_def is_enrol_def is_demo_def)

lemma scan_files_sorted:
  "\<forall>f\<in>set fs. CHR ''/'' \<notin> set f \<Longrightarrow> sorted_store st \<Longrightarrow>
     sorted_store (foldl (scan_file d) st fs)"
  by (induction fs arbitrary: st) (simp_all add: scan_file_sorted)

lemma scan_files_enrol:
  "set (enrol (foldl (scan_file d) st fs))
      = set (enrol st) \<union> path_join d ` {f \<in> set fs. is_enrol f}"
  by (induction fs arbitrary: st) (auto simp: scan_file_enrol)

lemma scan_files_bio:
  "set (bio (foldl (scan_file d) st fs))
      = set (bio st) \<union> path_join d ` {f \<in> set fs. is_bio f}"
  by (induction fs arbitrary: st) (auto simp: scan_file_bio)

lemma scan_files_demo:
  "set (demo (foldl (scan_file d) st fs))
      = set (demo st) \<union> path_join d ` {f \<in> set fs. is_demo f}"
  by (induction fs arbitrary: st) (auto simp: scan_file_demo)

lemma scan_dirs_sorted:
  "plain_names walk \<Longrightarrow> sorted_store st \<Longrightarrow> sorted_store (foldl scan_dir st walk)"
proof (induction walk arbitrary: st)
  case Nil
  then show ?case by simp
next
  case (Cons d walk)
  from Cons.prems(1) have a: "\<forall>f\<in>set (snd d). CHR ''/'' \<notin> set f" and b: "plain_names walk"
    by (simp_all add: plain_names_def)
  have "sorted_store (scan_dir st d)"
    unfolding scan_dir_def using a Cons.prems(2) by (rule scan_files_sorted)
  then show ?case using Cons.IH[OF b] by simp
qed

lemma scan_dirs_enrol:
  "set (enrol (foldl scan_dir st walk))
      = set (enrol st) \<union> (\<Union>d\<in>set walk. path_join (fst d) ` {f \<in> set (snd d). is_enrol f})"
  by (induction walk arbitrary: st) (auto simp: scan_dir_def scan_files_enrol)

lemma scan_dirs_bio:
  "set (bio (foldl scan_dir st walk))
      = set (bio st) \<union> (\<Union>d\<in>set walk. path_join (fst d) ` {f \<in> set (snd d). is_bio f})"
  by (induction walk arbitrary: st) (auto simp: scan_dir_def scan_files_bio)

lemma scan_dirs_demo:
  "set (demo (foldl scan_dir st walk))
      = set (demo st) \<union> (\<Union>d\<in>set walk. path_join (fst d) ` {f \<in> set (snd d). is_demo f})"
  by (induction walk arbitrary: st) (auto simp: scan_dir_def scan_files_demo)

lemma scan_sorted: "plain_names walk \<Longrightarrow> sorted_store (scan walk)"
  unfolding scan_def by (rule scan_dirs_sorted) (simp_all add: sorted_store_def)

lemma scan_sets:
  "set (enrol (scan walk))
      = (\<Union>d\<in>set walk. path_join (fst d) ` {f \<in> set (snd d). is_enrol f})"
  "set (bio (scan walk))
      = (\<Union>d\<in>set walk. path_join (fst d) ` {f \<in> set (snd d). is_bio f})"
  "set (demo (scan walk))
      = (\<Union>d\<in>set walk. path_join (fst d) ` {f \<in> set (snd d). is_demo f})"
  by (simp_all add: scan_def scan_dirs_enrol scan_dirs_bio scan_dirs_demo)

lemma load_key_none:
  assumes "\<forall>p\<in>set paths. \<not> loads parse fs p"
  shows "load_key parse fs paths = (DataFrame, 0)"
proof -
  from assms have "filter (loads parse fs) paths = []" by (simp add: filter_empty_conv)
  then have "load_dfs parse fs paths = []" by (simp add: load_dfs_filter)
  then show ?thesis by (simp add: load_key_def)
qed

lemma clean_df_DataFrame: "clean_df DataFrame = Inr DataFrame"
  by (simp add: clean_df_def empty_def DataFrame_def)

section \<open>Properties of the aggregator\<close>

lemma set_key_cells: "set (key_cells ks) = {c \<in> set ks. c \<noteq> NA}"
  by (auto simp: key_cells_def)

lemma cell_sum_absent: "k \<notin> set ks \<Longrightarrow> cell_sum ks vs k = 0"
proof -
  assume a: "k \<notin> set ks"
  have "filter (\<lambda>kv. fst kv = k) (zip ks vs) = []"
    using a by (auto simp: filter_empty_conv dest: set_zip_leftD)
  then show ?thesis by (simp add: cell_sum_def)
qed

lemma map_of_keyed: "map_of (map (\<lambda>k. (k, f k)) xs) k = (if k \<in> set xs then Some (f k) else None)"
  by (induction xs) auto

lemma pin_sums_lookup:
  "k \<noteq> NA \<Longrightarrow>
     (case map_of (pin_sums col df) k of Some v \<Rightarrow> v | None \<Rightarrow> 0)
       = cell_sum (column ''pincode'' df) (map num_val (column col df)) k"
  by (simp add: pin_sums_def Let_def map_of_keyed set_key_cells cell_sum_absent)

lemma float_div_plus_one:
  "0 \<le> b \<Longrightarrow> float_div a (b + 1) = Some (a / (b + 1))"
  by (simp add: float_div_def)

lemma q3_ratio_rows:
  assumes "q3_urban_rural_divide df_bio df_demo = Inr out" and "row \<in> set out"
  shows "Digital_Ratio row = float_div (demo_age_17 row) (bio_age_17 row + 1)
     \<and> demo_age_17 row = cell_sum (column ''pincode'' df_demo)
                            (map num_val (column ''demo_age_17_'' df_demo)) (pincode row)
     \<and> bio_age_17 row = cell_sum (column ''pincode'' df_bio)
                            (map num_val (column ''bio_age_17_'' df_bio)) (pincode row)
     \<and> (bio_age_17 row = 0 \<longrightarrow> Digital_Ratio row = Some (demo_age_17 row))"
proof -
  define demo_pin where "demo_pin = pin_sums ''demo_age_17_'' df_demo"
  define bio_pin where "bio_pin = pin_sums ''bio_age_17_'' df_bio"
  define mk where "mk = (\<lambda>(k, dv, bv).
      \<lparr>pincode = k, demo_age_17 = dv, bio_age_17 = bv, Total_Vol = dv + bv,
       Digital_Ratio = float_div dv (bv + 1)\<rparr>)"
  define df_pin where "df_pin =
      map (\<lambda>(k, dv). (k, dv, (case map_of bio_pin k of Some bv \<Rightarrow> bv | None \<Rightarrow> 0))) demo_pin"
  from assms(1) have out: "out = map mk (filter (\<lambda>(k, dv, bv). dv + bv > 100) df_pin)"
    by (auto simp: q3_urban_rural_divide_def Let_def mk_def df_pin_def demo_pin_def bio_pin_def
        split: if_splits)
  with assms(2) obtain k dv bv where t: "(k, dv, bv) \<in> set df_pin" and row: "row = mk (k, dv, bv)"
    by auto
  from t have dv: "(k, dv) \<in> set demo_pin"
    and bv: "bv = (case map_of bio_pin k of Some bv \<Rightarrow> bv | None \<Rightarrow> 0)"
    by (auto simp: df_pin_def)
  from dv have kn: "k \<noteq> NA"
    and d: "dv = cell_sum (column ''pincode'' df_demo)
                            (map num_val (column ''demo_age_17_'' df_demo)) k"
    by (auto simp: demo_pin_def pin_sums_def Let_def set_key_cells)
  have b: "bv = cell_sum (column ''pincode'' df_bio)
                            (map num_val (column ''bio_age_17_'' df_bio)) k"
    unfolding bv bio_pin_def using kn by (rule pin_sums_lookup)
  have r: "pincode row = k" "demo_age_17 row = dv" "bio_age_17 row = bv"
    "Digital_Ratio row = float_div dv (bv + 1)"
    by (simp_all add: row mk_def)
  have z: "bv = 0 \<Longrightarrow> float_div dv (bv + 1) = Some dv" by (simp add: float_div_def)
  show ?thesis
    unfolding r using d b z by simp
qed

lemma ratio_df_rows:
  assumes "ratio_df df_bio df_demo = Inr out" and "row \<in> set out"
  shows "Ratio row = float_div (Demo row) (Bio row + 1) \<and> Bio row > 100"
  using assms by (auto simp: ratio_df_def Let_def split: if_splits)


section \<open>The claims\<close>

subsection \<open>Normalizer\<close>

text \<open>
  C1 (as amended).  For every alias key the normalizer returns the title-cased form of
  the name the alias table gives for it: that is the table's name itself for the aliases
  of West Bengal, Uttarakhand and Odisha, and \<open>Dadra And Nagar Haveli\<close> (capital
  \<open>And\<close>) for the fifth alias.  Each of these title-cased canonical names is returned
  unchanged.
\<close>

theorem normalize_state_alias_and_canonical:
  "(map_of state_map k = Some v \<longrightarrow>
      normalize_state k = title v \<and>
      title v = (if v = ''Dadra and Nagar Haveli'' then ''Dadra And Nagar Haveli'' else v))
   \<and> (c \<in> title ` snd ` set state_map \<longrightarrow> normalize_state c = c)"
proof -
  have t1: "title ''West Bengal'' = ''West Bengal''" by code_simp
  have t2: "title ''Uttarakhand'' = ''Uttarakhand''" by code_simp
  have t3: "title ''Odisha'' = ''Odisha''" by code_simp
  have t4: "title ''Dadra and Nagar Haveli'' = ''Dadra And Nagar Haveli''" by code_simp
  have c1: "normalize_state ''West Bengal'' = ''West Bengal''" by code_simp
  have c2: "normalize_state ''Uttarakhand'' = ''Uttarakhand''" by code_simp
  have c3: "normalize_state ''Odisha'' = ''Odisha''" by code_simp
  have c4: "normalize_state ''Dadra And Nagar Haveli'' = ''Dadra And Nagar Haveli''" by code_simp
  have a: "normalize_state k = title v \<and>
      title v = (if v = ''Dadra and Nagar Haveli'' then ''Dadra And Nagar Haveli'' else v)"
    if "map_of state_map k = Some v"
    using map_of_state_map_cases[OF that] t1 t2 t3 t4
      normalize_Westbengal normalize_West_Bengal2 normalize_Uttaranchal normalize_Orissa
      normalize_Dadra_alias
    by auto
  have b: "normalize_state c = c" if "c \<in> title ` snd ` set state_map"
    using that t1 t2 t3 t4 c1 c2 c3 c4 by (auto simp: state_map_def)
  show ?thesis using a b by blast
qed

theorem normalize_state_alias_and_canonical_witness:
  "map_of state_map ''Orissa'' = Some ''Odisha''
   \<and> normalize_state ''Orissa'' = ''Odisha''
   \<and> ''Odisha'' \<in> title ` snd ` set state_map
   \<and> normalize_state ''Odisha'' = ''Odisha''"
proof -
  have k: "map_of state_map ''Orissa'' = Some ''Odisha''" by (simp add: state_map_def)
  have t: "title ''Odisha'' = ''Odisha''" by code_simp
  have c: "''Odisha'' \<in> title ` snd ` set state_map"
    using t by (simp add: state_map_def)
  show ?thesis
    using normalize_state_alias_and_canonical[of "''Orissa''" "''Odisha''" "''Odisha''"] k c t
    by simp
qed

text \<open>
  The claim as written fails for the fifth alias: the table's value has a lower-case
  \<open>and\<close>, which the title-casing that follows the replacement capitalises; for the
  same reason the table's own spelling is not left unchanged.
\<close>

theorem normalize_state_canonical_counterexample:
  "map_of state_map ''The Dadra And Nagar Haveli And Daman And Diu'' = Some ''Dadra and Nagar Haveli''
   \<and> normalize_state ''The Dadra And Nagar Haveli And Daman And Diu'' \<noteq> ''Dadra and Nagar Haveli''
   \<and> normalize_state ''Dadra and Nagar Haveli'' \<noteq> ''Dadra and Nagar Haveli''"
proof -
  have "normalize_state ''Dadra and Nagar Haveli'' = ''Dadra And Nagar Haveli''" by code_simp
  then show ?thesis by (simp add: normalize_Dadra_alias state_map_def)
qed

text \<open>
  C2 (as amended).  For every frame whose \<open>state\<close> column holds ASCII strings, cleaning
  it twice gives the same result as cleaning it once exactly when no cell of the
  \<open>state\<close> column of the once-cleaned frame is an alias key.  (Cleaning is the alias
  replacement, then strip and title on the \<open>state\<close> column, then the fill of missing
  numeric cells with zero.)
\<close>

theorem clean_df_twice_iff:
  assumes "ascii_states df"
  shows "(clean_twice df = clean_df df) =
     (\<forall>t. clean_df df = Inr t \<longrightarrow>
        (\<forall>r\<in>set (rows t). cell_at (columns t) ''state'' r \<notin> Str ` alias_keys))"
proof (cases "empty df \<or> \<not> has_col ''state'' df")
  case True
  then have c: "clean_df df = Inr df" by (rule clean_df_skip)
  have "cell_at (columns df) ''state'' r \<notin> Str ` alias_keys" if "r \<in> set (rows df)" for r
  proof (cases "has_col ''state'' df")
    case False
    then show ?thesis by (auto simp: has_col_def cell_at_def)
  next
    case h: True
    with True have "empty df" by simp
    with h that show ?thesis by (auto simp: empty_def has_col_def)
  qed
  then show ?thesis by (simp add: clean_twice_def c)
next
  case False
  then have ne: "\<not> empty df" and "has_col ''state'' df" by simp_all
  then obtain i where i: "col_index ''state'' (columns df) = Some i"
    by (auto simp: has_col_def)
  from i have il: "i < length (columns df)" using col_index_Some by blast
  show ?thesis
  proof (cases "snd (columns df ! i) = Object")
    case no: False
    then have "clean_df df = Inl AttributeError" using clean_df_run[OF ne i] by simp
    then show ?thesis by (simp add: clean_twice_def)
  next
    case ob: True
    let ?t = "\<lparr>columns = columns df, rows = map (norm_row (columns df) i) (rows df)\<rparr>"
    have c1: "clean_df df = Inr ?t" using clean_df_run[OF ne i] ob by simp
    have net: "\<not> empty ?t" using ne by (simp add: empty_def)
    have c2: "clean_df ?t =
       Inr \<lparr>columns = columns df, rows = map (norm_row (columns df) i) (rows ?t)\<rparr>"
      using clean_df_run[OF net, of i] i ob by simp
    have "(clean_twice df = clean_df df) =
        (\<forall>r\<in>set (rows df). norm_row (columns df) i (norm_row (columns df) i r)
                               = norm_row (columns df) i r)"
      by (simp add: clean_twice_def c1 c2)
    also have "\<dots> = (\<forall>r\<in>set (rows df). i < length r \<longrightarrow>
                        norm_row (columns df) i r ! i \<notin> Str ` alias_keys)"
      using norm_row_twice[OF il ob] by simp
    also have "\<dots> = (\<forall>r\<in>set (rows ?t). cell_at (columns ?t) ''state'' r \<notin> Str ` alias_keys)"
      by (auto simp: cell_at_def i norm_row_def length_fill_row)
    finally show ?thesis by (simp add: c1)
  qed
qed

theorem clean_twice_iff_witness:
  "ascii_states \<lparr>columns = [(''state'', Object), (''age_0_5'', Number)],
             rows = [[Str ''Westbengal'', NA]]\<rparr>
   \<and> clean_df \<lparr>columns = [(''state'', Object), (''age_0_5'', Number)],
             rows = [[Str ''Westbengal'', NA]]\<rparr>
     = Inr \<lparr>columns = [(''state'', Object), (''age_0_5'', Number)],
            rows = [[Str ''West Bengal'', Num 0]]\<rparr>
   \<and> cell_at [(''state'', Object), (''age_0_5'', Number)] ''state'' [Str ''West Bengal'', Num 0]
       \<notin> Str ` alias_keys
   \<and> clean_twice \<lparr>columns = [(''state'', Object), (''age_0_5'', Number)],
                  rows = [[Str ''Westbengal'', NA]]\<rparr>
     = clean_df \<lparr>columns = [(''state'', Object), (''age_0_5'', Number)],
                 rows = [[Str ''Westbengal'', NA]]\<rparr>"
proof -
  let ?df = "\<lparr>columns = [(''state'', Object), (''age_0_5'', Number)],
             rows = [[Str ''Westbengal'', NA]]\<rparr>"
  let ?t = "\<lparr>columns = [(''state'', Object), (''age_0_5'', Number)],
            rows = [[Str ''West Bengal'', Num 0]]\<rparr>"
  have asc: "ascii_states ?df" by code_simp
  have a: "clean_df ?df = Inr ?t" by code_simp
  have b: "cell_at [(''state'', Object), (''age_0_5'', Number)] ''state'' [Str ''West Bengal'', Num 0]
       \<notin> Str ` alias_keys"
    by (simp add: cell_at_def alias_keys_def state_map_def)
  have "\<forall>t. clean_df ?df = Inr t \<longrightarrow>
        (\<forall>r\<in>set (rows t). cell_at (columns t) ''state'' r \<notin> Str ` alias_keys)"
    using b by (simp add: a)
  then have "clean_twice ?df = clean_df ?df"
    using clean_df_twice_iff[OF asc] by blast
  with asc a b show ?thesis by blast
qed

text \<open>
  The claim as written fails: the replacement runs before the title-casing, so
  \<open>orissa\<close> first becomes the alias \<open>Orissa\<close>, which only a second pass maps to
  \<open>Odisha\<close>.
\<close>

theorem clean_twice_counterexample:
  "ascii_states \<lparr>columns = [(''state'', Object), (''age_0_5'', Number)],
             rows = [[Str ''orissa'', Num 3]]\<rparr>
   \<and> clean_df \<lparr>columns = [(''state'', Object), (''age_0_5'', Number)],
             rows = [[Str ''orissa'', Num 3]]\<rparr>
     = Inr \<lparr>columns = [(''state'', Object), (''age_0_5'', Number)],
            rows = [[Str ''Orissa'', Num 3]]\<rparr>
   \<and> clean_twice \<lparr>columns = [(''state'', Object), (''age_0_5'', Number)],
                  rows = [[Str ''orissa'', Num 3]]\<rparr>
     = Inr \<lparr>columns = [(''state'', Object), (''age_0_5'', Number)],
            rows = [[Str ''Odisha'', Num 3]]\<rparr>
   \<and> clean_twice \<lparr>columns = [(''state'', Object), (''age_0_5'', Number)],
                  rows = [[Str ''orissa'', Num 3]]\<rparr>
     \<noteq> clean_df \<lparr>columns = [(''state'', Object), (''age_0_5'', Number)],
                  rows = [[Str ''orissa'', Num 3]]\<rparr>"
  by code_simp

text \<open>
  The fill under the guard.  For every frame that is not empty and has a \<open>state\<close>
  column, when the cleaning returns, the frame has the same columns and as many rows, and
  every cell of a numeric column is the cell it was, or zero where it was missing.
\<close>

theorem clean_df_fills_numeric:
  assumes "clean_df df = Inr t" and "\<not> empty df" and "has_col ''state'' df"
  shows "columns t = columns df \<and> length (rows t) = length (rows df) \<and>
     (\<forall>k<length (rows df). \<forall>j<length (columns df).
        snd (columns df ! j) = Number \<longrightarrow> j < length (rows df ! k) \<longrightarrow>
          rows t ! k ! j = (if rows df ! k ! j = NA then Num 0 else rows df ! k ! j)
          \<and> rows t ! k ! j \<noteq> NA)"
proof -
  from assms(3) obtain i where i: "col_index ''state'' (columns df) = Some i"
    by (auto simp: has_col_def)
  from i have il: "i < length (columns df)" using col_index_Some by blast
  have ob: "snd (columns df ! i) = Object"
    using clean_df_run[OF assms(2) i] assms(1) by (auto split: if_splits)
  have t: "t = \<lparr>columns = columns df, rows = map (norm_row (columns df) i) (rows df)\<rparr>"
    using clean_df_run[OF assms(2) i] assms(1) ob by simp
  have cell: "norm_row (columns df) i r ! j = (if r ! j = NA then Num 0 else r ! j)"
    if "j < length (columns df)" "snd (columns df ! j) = Number" "j < length r" for r j
  proof -
    from that(2) ob have "j \<noteq> i" by auto
    then show ?thesis
      using fill_row_nth_number[OF that(1) that(2), of "r[i := norm_cell (r ! i)]"] that(3)
      by (simp add: norm_row_def)
  qed
  show ?thesis using cell by (simp add: t)
qed

theorem clean_df_fills_numeric_witness:
  "clean_df \<lparr>columns = [(''state'', Object), (''pincode'', Number), (''age_0_5'', Number)],
             rows = [[Str ''Orissa'', Num 751001, NA]]\<rparr>
     = Inr \<lparr>columns = [(''state'', Object), (''pincode'', Number), (''age_0_5'', Number)],
            rows = [[Str ''Odisha'', Num 751001, Num 0]]\<rparr>
   \<and> \<not> empty \<lparr>columns = [(''state'', Object), (''pincode'', Number), (''age_0_5'', Number)],
             rows = [[Str ''Orissa'', Num 751001, NA]]\<rparr>
   \<and> has_col ''state'' \<lparr>columns = [(''state'', Object), (''pincode'', Number), (''age_0_5'', Number)],
             rows = [[Str ''Orissa'', Num 751001, NA]]\<rparr>
   \<and> rows \<lparr>columns = [(''state'', Object), (''pincode'', Number), (''age_0_5'', Number)],
            rows = [[Str ''Odisha'', Num 751001, Num 0]]\<rparr> ! 0 ! 2 \<noteq> NA"
proof -
  let ?df = "\<lparr>columns = [(''state'', Object), (''pincode'', Number), (''age_0_5'', Number)],
             rows = [[Str ''Orissa'', Num 751001, NA]]\<rparr>"
  let ?t = "\<lparr>columns = [(''state'', Object), (''pincode'', Number), (''age_0_5'', Number)],
            rows = [[Str ''Odisha'', Num 751001, Num 0]]\<rparr>"
  have a: "clean_df ?df = Inr ?t" by code_simp
  have b: "\<not> empty ?df" by (simp add: empty_def)
  have c: "has_col ''state'' ?df" by (simp add: has_col_def)
  from clean_df_fills_numeric[OF a b c]
  have "rows ?t ! 0 ! 2 \<noteq> NA" by simp
  with a b c show ?thesis by blast
qed

text \<open>
  C7.  After normalization no cell of a numeric column of a loaded frame should be missing.
  \<open>load_data_recursive\<close> does not achieve this for a file without a \<open>state\<close> column:
  the fill is written inside the branch guarded by \<open>'state' in df.columns\<close>, so the
  missing counter of this file is still missing in the frame that is returned.
\<close>

theorem load_data_recursive_leaves_missing_numeric:
  "load_data_recursive [(''data'', [''api_data_aadhar_enrolment_0.csv''])] parse_dmy
     (single_file ''data/api_data_aadhar_enrolment_0.csv''
        \<lparr>columns = [(''date'', Object), (''pincode'', Number), (''age_0_5'', Number)],
         rows = [[Str ''01-03-2025'', Num 110001, NA]]\<rparr>)
   = Inr (\<lparr>enrol = \<lparr>columns = [(''date'', Datetime), (''pincode'', Number), (''age_0_5'', Number)],
                     rows = [[Date (2025, 3, 1), Num 110001, NA]]\<rparr>,
           bio = DataFrame, demo = DataFrame\<rparr>,
          \<lparr>enrol = 1, bio = 0, demo = 0\<rparr>)
   \<and> col_dtype ''age_0_5''
        \<lparr>columns = [(''date'', Datetime), (''pincode'', Number), (''age_0_5'', Number)],
         rows = [[Date (2025, 3, 1), Num 110001, NA]]\<rparr> = Some Number
   \<and> cell_at [(''date'', Datetime), (''pincode'', Number), (''age_0_5'', Number)] ''age_0_5''
        [Date (2025, 3, 1), Num 110001, NA] = NA"
  by code_simp


subsection \<open>Loader\<close>

text \<open>
  C3.  Take a file that reads as a table with a \<open>date\<close> column, and a row of it whose
  date cell is a string that does not match the date pattern.  The file loads (the body of
  the \<open>try\<close> completes), with as many rows as it had; the row is still at its place with
  every other cell as it was and the missing marker for its date; and in the frame the
  loader returns for any list of files that contains this one, the row is present and its
  cell under the \<open>date\<close> column is the missing marker.
\<close>

theorem unparseable_date_row_kept:
  assumes "fs p = Inr df" and "col_index ''date'' (columns df) = Some i"
    and "k < length (rows df)" and "i < length (rows df ! k)"
    and "rows df ! k ! i = Str s" and "parse s = None" and "p \<in> set files"
  shows "loads parse fs p
     \<and> length (rows (loaded parse fs p)) = length (rows df)
     \<and> rows (loaded parse fs p) ! k = (rows df ! k)[i := NA]
     \<and> has_col ''date'' (load_files parse fs files)
     \<and> reindex_row (columns (loaded parse fs p)) (map fst (columns (load_files parse fs files)))
          ((rows df ! k)[i := NA]) \<in> set (rows (load_files parse fs files))
     \<and> cell_at (columns (load_files parse fs files)) ''date''
          (reindex_row (columns (loaded parse fs p)) (map fst (columns (load_files parse fs files)))
             ((rows df ! k)[i := NA])) = NA"
proof -
  define df' where "df' = \<lparr>columns = (columns df)[i := (''date'', Datetime)],
              rows = map (\<lambda>r. r[i := to_datetime parse (r ! i)]) (rows df)\<rparr>"
  define r where "r = (rows df ! k)[i := NA]"
  have l1: "load_one parse fs p = Inr df'"
    using load_one_date[of fs p df i parse] assms(1,2) by (simp add: df'_def)
  then have ok: "loads parse fs p" and ld: "loaded parse fs p = df'"
    by (simp_all add: loads_def loaded_def)
  have len: "length (rows df') = length (rows df)" by (simp add: df'_def)
  have rk: "rows df' ! k = r" using assms(3,5,6) by (simp add: df'_def r_def)
  have "rows df' ! k \<in> set (rows df')" using assms(3) len by (intro nth_mem) simp
  then have rin: "r \<in> set (rows df')" by (simp only: rk)
  have ci: "col_index ''date'' (columns df') = Some i"
    using col_index_update[OF assms(2)] by (simp add: df'_def)
  then have hc: "has_col ''date'' df'" by (simp add: has_col_def)
  have cr: "cell_at (columns df') ''date'' r = NA"
    using assms(4) by (simp add: cell_at_def ci r_def)
  define dfs where "dfs = load_dfs parse fs files"
  have mem: "df' \<in> set dfs" using loads_in_load_dfs[OF assms(7) ok] ld by (simp add: dfs_def)
  then have "dfs \<noteq> []" by auto
  then have out: "load_files parse fs files = concat_df dfs"
    by (simp add: load_files_def Let_def dfs_def)
  have a: "has_col ''date'' (concat_df dfs)" using mem hc by (rule has_col_concat_df)
  have b: "reindex_row (columns df') (map fst (columns (concat_df dfs))) r
             \<in> set (rows (concat_df dfs))"
    using mem rin by (rule row_in_concat_df)
  have c: "cell_at (columns (concat_df dfs)) ''date''
             (reindex_row (columns df') (map fst (columns (concat_df dfs))) r) = NA"
    using cell_at_concat_df[OF mem hc, of r] cr by (simp only:)
  show ?thesis
    unfolding out ld r_def[symmetric]
    using ok len rk a b c by (intro conjI)
qed

theorem unparseable_date_row_kept_witness:
  "parse_dmy ''2025/03/02'' = None
   \<and> load_files parse_dmy (single_file ''a.csv'' \<lparr>columns = [(''date'', Object), (''state'', Object), (''age_0_5'', Number)],
      rows = [[Str ''01-03-2025'', Str ''Odisha'', Num 4],
              [Str ''2025/03/02'', Str ''Odisha'', Num 5]]\<rparr>) [''a.csv'']
     = \<lparr>columns = [(''date'', Datetime), (''state'', Object), (''age_0_5'', Number)],
      rows = [[Date (2025, 3, 1), Str ''Odisha'', Num 4],
              [NA, Str ''Odisha'', Num 5]]\<rparr>
   \<and> cell_at (columns (load_files parse_dmy (single_file ''a.csv'' \<lparr>columns = [(''date'', Object), (''state'', Object), (''age_0_5'', Number)],
      rows = [[Str ''01-03-2025'', Str ''Odisha'', Num 4],
              [Str ''2025/03/02'', Str ''Odisha'', Num 5]]\<rparr>) [''a.csv''])) ''date''
        [NA, Str ''Odisha'', Num 5] = NA
   \<and> [NA, Str ''Odisha'', Num 5]
        \<in> set (rows (load_files parse_dmy (single_file ''a.csv'' \<lparr>columns = [(''date'', Object), (''state'', Object), (''age_0_5'', Number)],
      rows = [[Str ''01-03-2025'', Str ''Odisha'', Num 4],
              [Str ''2025/03/02'', Str ''Odisha'', Num 5]]\<rparr>) [''a.csv'']))"
proof -
  let ?A = "\<lparr>columns = [(''date'', Object), (''state'', Object), (''age_0_5'', Number)],
      rows = [[Str ''01-03-2025'', Str ''Odisha'', Num 4],
              [Str ''2025/03/02'', Str ''Odisha'', Num 5]]\<rparr>"
  let ?fs = "single_file ''a.csv'' ?A"
  have h1: "?fs ''a.csv'' = Inr ?A" by (simp add: single_file_def)
  have h2: "col_index ''date'' (columns ?A) = Some 0" by simp
  have h3: "1 < length (rows ?A)" by simp
  have h4: "0 < length (rows ?A ! 1)" by simp
  have h5: "rows ?A ! 1 ! 0 = Str ''2025/03/02''" by simp
  have h6: "parse_dmy ''2025/03/02'' = None" by code_simp
  have h7: "''a.csv'' \<in> set [''a.csv'']" by simp
  have out: "load_files parse_dmy ?fs [''a.csv''] = \<lparr>columns = [(''date'', Datetime), (''state'', Object), (''age_0_5'', Number)],
      rows = [[Date (2025, 3, 1), Str ''Odisha'', Num 4],
              [NA, Str ''Odisha'', Num 5]]\<rparr>"
    by code_simp
  have ld: "loaded parse_dmy ?fs ''a.csv'' = \<lparr>columns = [(''date'', Datetime), (''state'', Object), (''age_0_5'', Number)],
      rows = [[Date (2025, 3, 1), Str ''Odisha'', Num 4],
              [NA, Str ''Odisha'', Num 5]]\<rparr>"
    by code_simp
  have re: "reindex_row [(''date'', Datetime), (''state'', Object), (''age_0_5'', Number)]
      [''date'', ''state'', ''age_0_5''] [NA, Str ''Odisha'', Num 5] = [NA, Str ''Odisha'', Num 5]"
    by (simp add: reindex_row_def cell_at_def)
  from unparseable_date_row_kept[where fs="?fs" and p="''a.csv''" and df="?A" and i=0 and k=1
      and s="''2025/03/02''" and parse=parse_dmy and files="[''a.csv'']", OF h1 h2 h3 h4 h5 h6 h7]
  have "reindex_row (columns (loaded parse_dmy ?fs ''a.csv''))
          (map fst (columns (load_files parse_dmy ?fs [''a.csv''])))
          ((rows ?A ! 1)[0 := NA]) \<in> set (rows (load_files parse_dmy ?fs [''a.csv'']))
     \<and> cell_at (columns (load_files parse_dmy ?fs [''a.csv''])) ''date''
          (reindex_row (columns (loaded parse_dmy ?fs ''a.csv''))
             (map fst (columns (load_files parse_dmy ?fs [''a.csv''])))
             ((rows ?A ! 1)[0 := NA])) = NA"
    by blast
  then have "[NA, Str ''Odisha'', Num 5] \<in> set (rows (load_files parse_dmy ?fs [''a.csv'']))
     \<and> cell_at (columns (load_files parse_dmy ?fs [''a.csv''])) ''date''
           [NA, Str ''Odisha'', Num 5] = NA"
    unfolding ld by (simp add: out re)
  with h6 out show ?thesis by blast
qed

text \<open>
  The loaders that guard the empty case.  If no path of a category loads (in particular if
  there is none), \<open>load_data_recursive\<close> and \<open>load_files\<close> produce the empty frame and
  the count 0 for it, and the cleaning of that frame returns it without raising.  Whenever
  \<open>load_data_recursive\<close> returns, the frame and the count it holds for such a category
  are the empty frame and 0, for each of the three categories.
\<close>

theorem no_files_gives_empty_frame:
  assumes "\<forall>p\<in>set paths. \<not> loads parse fs p"
  shows "load_key parse fs paths = (DataFrame, 0)
     \<and> load_files parse fs paths = DataFrame
     \<and> empty DataFrame
     \<and> clean_df (fst (load_key parse fs paths)) = Inr DataFrame
     \<and> (\<forall>walk res file_log. load_data_recursive walk parse fs = Inr (res, file_log) \<longrightarrow>
          (enrol (scan walk) = paths \<longrightarrow> enrol res = DataFrame \<and> enrol file_log = 0)
        \<and> (bio (scan walk) = paths \<longrightarrow> bio res = DataFrame \<and> bio file_log = 0)
        \<and> (demo (scan walk) = paths \<longrightarrow> demo res = DataFrame \<and> demo file_log = 0))"
proof -
  have lk: "load_key parse fs paths = (DataFrame, 0)" using assms by (rule load_key_none)
  then have lf: "load_files parse fs paths = DataFrame"
    using load_key_fst[of parse fs paths] by simp
  have e: "empty DataFrame" by (simp add: empty_def DataFrame_def)
  have c: "clean_df (fst (load_key parse fs paths)) = Inr DataFrame"
    by (simp add: lk clean_df_DataFrame)
  have w: "(enrol (scan walk) = paths \<longrightarrow> enrol res = DataFrame \<and> enrol file_log = 0)
        \<and> (bio (scan walk) = paths \<longrightarrow> bio res = DataFrame \<and> bio file_log = 0)
        \<and> (demo (scan walk) = paths \<longrightarrow> demo res = DataFrame \<and> demo file_log = 0)"
    if "load_data_recursive walk parse fs = Inr (res, file_log)" for walk res file_log
    using that lk clean_df_DataFrame
    by (auto simp: load_data_recursive_def Let_def split: sum.splits)
  show ?thesis using lk lf e c w by blast
qed

theorem no_files_gives_empty_frame_witness:
  "\<not> loads parse_dmy (single_file ''a.csv'' \<lparr>columns = [(''date'', Object), (''state'', Object), (''age_0_5'', Number)],
      rows = [[Str ''01-03-2025'', Str ''Odisha'', Num 4],
              [Str ''2025/03/02'', Str ''Odisha'', Num 5]]\<rparr>) ''missing.csv''
   \<and> load_key parse_dmy (single_file ''a.csv'' \<lparr>columns = [(''date'', Object), (''state'', Object), (''age_0_5'', Number)],
      rows = [[Str ''01-03-2025'', Str ''Odisha'', Num 4],
              [Str ''2025/03/02'', Str ''Odisha'', Num 5]]\<rparr>) [''missing.csv''] = (DataFrame, 0)
   \<and> load_key parse_dmy (single_file ''a.csv'' \<lparr>columns = [(''date'', Object), (''state'', Object), (''age_0_5'', Number)],
      rows = [[Str ''01-03-2025'', Str ''Odisha'', Num 4],
              [Str ''2025/03/02'', Str ''Odisha'', Num 5]]\<rparr>) [] = (DataFrame, 0)"
proof -
  let ?fs = "single_file ''a.csv'' \<lparr>columns = [(''date'', Object), (''state'', Object), (''age_0_5'', Number)],
      rows = [[Str ''01-03-2025'', Str ''Odisha'', Num 4],
              [Str ''2025/03/02'', Str ''Odisha'', Num 5]]\<rparr>"
  have n: "\<not> loads parse_dmy ?fs ''missing.csv''"
    by (simp add: loads_def load_one_def single_file_def)
  then have "\<forall>p\<in>set [''missing.csv'']. \<not> loads parse_dmy ?fs p" by simp
  from no_files_gives_empty_frame[OF this]
  have a: "load_key parse_dmy ?fs [''missing.csv''] = (DataFrame, 0)" by blast
  have "\<forall>p\<in>set []. \<not> loads parse_dmy ?fs p" by simp
  from no_files_gives_empty_frame[OF this]
  have b: "load_key parse_dmy ?fs [] = (DataFrame, 0)" by blast
  from n a b show ?thesis by blast
qed

text \<open>
  C4.  A category with no matching file should give an empty result and no exception.
  The two loaders above do.  \<open>load_all_data\<close> of \<open>temo.py\<close> does not: with no file for
  a category the list it passes to \<open>pd.concat\<close> is empty, and the ValueError that raises
  reaches the caller, whatever the other categories hold.
\<close>

theorem temo_load_no_files_raises:
  "temo_load parse fs [] = Inl ValueError
   \<and> load_all_data parse fs [] bio_files demo_files = Inl ValueError
   \<and> load_key parse fs [] = (DataFrame, 0)
   \<and> load_files parse fs [] = DataFrame"
  by (simp add: temo_load_def temo_concat_def load_all_data_def load_key_def load_files_def)

text \<open>
  C5 (as amended).  A file whose read raises, or that reads but has no \<open>date\<close> column,
  is skipped, and the loop goes on with the remaining files.  The frames the loop collects
  are those of the files that read and have a \<open>date\<close> column, each with that column
  converted, in the order of the paths; the frame the loader returns is their
  concatenation, or the empty frame when there is none, and the count is their number.
  The loader is a total function: no error reaches the caller.
\<close>

theorem load_keeps_files_read_with_date:
  "load_dfs parse fs files
     = map (\<lambda>p. assign_col ''date'' Datetime (to_datetime parse) (projr (fs p)))
         (filter (\<lambda>p. \<not> isl (fs p) \<and> has_col ''date'' (projr (fs p))) files)
   \<and> load_files parse fs files
     = (if filter (\<lambda>p. \<not> isl (fs p) \<and> has_col ''date'' (projr (fs p))) files = []
        then DataFrame
        else concat_df
               (map (\<lambda>p. assign_col ''date'' Datetime (to_datetime parse) (projr (fs p)))
                  (filter (\<lambda>p. \<not> isl (fs p) \<and> has_col ''date'' (projr (fs p))) files)))
   \<and> fst (load_key parse fs files) = load_files parse fs files
   \<and> snd (load_key parse fs files)
     = length (filter (\<lambda>p. \<not> isl (fs p) \<and> has_col ''date'' (projr (fs p))) files)"
proof -
  let ?ok = "\<lambda>p. \<not> isl (fs p) \<and> has_col ''date'' (projr (fs p))"
  let ?conv = "\<lambda>p. assign_col ''date'' Datetime (to_datetime parse) (projr (fs p))"
  have f: "filter (loads parse fs) files = filter ?ok files"
    by (rule filter_cong) (simp_all add: loads_iff)
  have "map (loaded parse fs) (filter ?ok files) = map ?conv (filter ?ok files)"
    by (rule map_cong) (simp_all add: loaded_eq loads_iff)
  then have d: "load_dfs parse fs files = map ?conv (filter ?ok files)"
    by (simp only: load_dfs_filter f)
  have lf: "load_files parse fs files
     = (if filter ?ok files = [] then DataFrame else concat_df (map ?conv (filter ?ok files)))"
    by (simp add: load_files_def d)
  have "snd (load_key parse fs files) = length (load_dfs parse fs files)"
    by (cases "load_dfs parse fs files = []") (auto simp: load_key_def Let_def)
  then have ln: "snd (load_key parse fs files) = length (filter ?ok files)"
    by (simp only: d length_map)
  show ?thesis using d lf ln load_key_fst[of parse fs files] by blast
qed

theorem load_keeps_files_read_with_date_witness:
  "load_files parse_dmy
      ((single_file ''a.csv'' \<lparr>columns = [(''date'', Object), (''state'', Object), (''age_0_5'', Number)],
      rows = [[Str ''01-03-2025'', Str ''Odisha'', Num 4],
              [Str ''2025/03/02'', Str ''Odisha'', Num 5]]\<rparr>)
       (''b.csv'' := Inr \<lparr>columns = [(''state'', Object), (''age_0_5'', Number)],
      rows = [[Str ''Odisha'', Num 4]]\<rparr>))
      [''a.csv'', ''c.csv'', ''b.csv'']
   = concat_df [\<lparr>columns = [(''date'', Datetime), (''state'', Object), (''age_0_5'', Number)],
      rows = [[Date (2025, 3, 1), Str ''Odisha'', Num 4],
              [NA, Str ''Odisha'', Num 5]]\<rparr>]
   \<and> snd (load_key parse_dmy
      ((single_file ''a.csv'' \<lparr>columns = [(''date'', Object), (''state'', Object), (''age_0_5'', Number)],
      rows = [[Str ''01-03-2025'', Str ''Odisha'', Num 4],
              [Str ''2025/03/02'', Str ''Odisha'', Num 5]]\<rparr>)
       (''b.csv'' := Inr \<lparr>columns = [(''state'', Object), (''age_0_5'', Number)],
      rows = [[Str ''Odisha'', Num 4]]\<rparr>))
      [''a.csv'', ''c.csv'', ''b.csv'']) = 1"
proof -
  let ?A = "\<lparr>columns = [(''date'', Object), (''state'', Object), (''age_0_5'', Number)],
      rows = [[Str ''01-03-2025'', Str ''Odisha'', Num 4],
              [Str ''2025/03/02'', Str ''Odisha'', Num 5]]\<rparr>"
  let ?X = "\<lparr>columns = [(''state'', Object), (''age_0_5'', Number)],
      rows = [[Str ''Odisha'', Num 4]]\<rparr>"
  let ?fs = "(single_file ''a.csv'' ?A)(''b.csv'' := Inr ?X)"
  let ?files = "[''a.csv'', ''c.csv'', ''b.csv'']"
  have ok: "filter (\<lambda>p. \<not> isl (?fs p) \<and> has_col ''date'' (projr (?fs p))) ?files = [''a.csv'']"
    by (simp add: single_file_def has_col_def)
  have cv: "assign_col ''date'' Datetime (to_datetime parse_dmy) (projr (?fs ''a.csv''))
      = \<lparr>columns = [(''date'', Datetime), (''state'', Object), (''age_0_5'', Number)],
      rows = [[Date (2025, 3, 1), Str ''Odisha'', Num 4],
              [NA, Str ''Odisha'', Num 5]]\<rparr>"
    by code_simp
  from load_keeps_files_read_with_date[of parse_dmy ?fs ?files]
  have "load_files parse_dmy ?fs ?files
     = (if filter (\<lambda>p. \<not> isl (?fs p) \<and> has_col ''date'' (projr (?fs p))) ?files = []
        then DataFrame
        else concat_df
               (map (\<lambda>p. assign_col ''date'' Datetime (to_datetime parse_dmy) (projr (?fs p)))
                  (filter (\<lambda>p. \<not> isl (?fs p) \<and> has_col ''date'' (projr (?fs p))) ?files)))"
    and "snd (load_key parse_dmy ?fs ?files)
     = length (filter (\<lambda>p. \<not> isl (?fs p) \<and> has_col ''date'' (projr (?fs p))) ?files)"
    by blast+
  then have "load_files parse_dmy ?fs ?files
     = concat_df [assign_col ''date'' Datetime (to_datetime parse_dmy) (projr (?fs ''a.csv''))]"
    and n: "snd (load_key parse_dmy ?fs ?files) = 1"
    unfolding ok by simp_all
  then show ?thesis by (simp only: cv)
qed

text \<open>
  The claim as written fails: a file that is read without error but has no \<open>date\<close>
  column is dropped with the files that failed to read, since the conversion of the date
  column is inside the \<open>try\<close>.
\<close>

theorem load_drops_file_without_date_counterexample:
  "single_file ''a.csv'' \<lparr>columns = [(''state'', Object), (''age_0_5'', Number)],
      rows = [[Str ''Odisha'', Num 4]]\<rparr> ''a.csv''
     = Inr \<lparr>columns = [(''state'', Object), (''age_0_5'', Number)],
      rows = [[Str ''Odisha'', Num 4]]\<rparr>
   \<and> load_files parse_dmy (single_file ''a.csv'' \<lparr>columns = [(''state'', Object), (''age_0_5'', Number)],
      rows = [[Str ''Odisha'', Num 4]]\<rparr>) [''a.csv''] = DataFrame
   \<and> load_files parse_dmy (single_file ''a.csv'' \<lparr>columns = [(''state'', Object), (''age_0_5'', Number)],
      rows = [[Str ''Odisha'', Num 4]]\<rparr>) [''a.csv'']
     \<noteq> concat_df [\<lparr>columns = [(''state'', Object), (''age_0_5'', Number)],
      rows = [[Str ''Odisha'', Num 4]]\<rparr>]"
  by code_simp

text \<open>
  C6.  The number of rows of the loaded frame is the sum of the numbers of rows of the
  files that loaded.  Its rows are the rows of the first such file, then those of the
  second, and so on, each row re-indexed to the columns of the result; when the files have
  the same columns the rows are exactly theirs, unchanged and in order, duplicates
  included.
\<close>

theorem concat_keeps_every_row:
  "length (rows (load_files parse fs files))
     = sum_list (map (\<lambda>p. length (rows (projr (fs p)))) (filter (loads parse fs) files))
   \<and> rows (load_files parse fs files)
     = concat (map (\<lambda>p. map (reindex_row (columns (loaded parse fs p))
                                (map fst (columns (load_files parse fs files))))
                             (rows (loaded parse fs p)))
                   (filter (loads parse fs) files))
   \<and> (distinct (map fst cols) \<and>
       (\<forall>p\<in>set (filter (loads parse fs) files).
           columns (loaded parse fs p) = cols \<and>
           (\<forall>r\<in>set (rows (loaded parse fs p)). length r = length cols))
      \<longrightarrow> rows (load_files parse fs files)
            = concat (map (\<lambda>p. rows (loaded parse fs p)) (filter (loads parse fs) files)))"
proof -
  let ?ok = "filter (loads parse fs) files"
  let ?dfs = "map (loaded parse fs) ?ok"
  have dfs: "load_dfs parse fs files = ?dfs" by (rule load_dfs_filter)
  show ?thesis
  proof (cases "?ok = []")
    case True
    then show ?thesis by (simp add: load_files_def dfs DataFrame_def)
  next
    case False
    then have out: "load_files parse fs files = concat_df ?dfs"
      by (simp add: load_files_def dfs)
    have "map (\<lambda>p. length (rows (loaded parse fs p))) ?ok
            = map (\<lambda>p. length (rows (projr (fs p)))) ?ok"
      by (rule map_cong) (simp_all add: loaded_rows)
    moreover have "map (\<lambda>df. length (rows df)) ?dfs
            = map (\<lambda>p. length (rows (loaded parse fs p))) ?ok"
      by (simp add: comp_def)
    ultimately have "sum_list (map (\<lambda>df. length (rows df)) ?dfs)
            = sum_list (map (\<lambda>p. length (rows (projr (fs p)))) ?ok)"
      by (simp only:)
    then have a: "length (rows (load_files parse fs files))
        = sum_list (map (\<lambda>p. length (rows (projr (fs p)))) ?ok)"
      by (simp add: out length_rows_concat_df del: map_map)
    have b: "rows (load_files parse fs files)
       = concat (map (\<lambda>p. map (reindex_row (columns (loaded parse fs p))
                                (map fst (columns (load_files parse fs files))))
                             (rows (loaded parse fs p))) ?ok)"
      unfolding out by (subst rows_concat_df) (simp add: comp_def)
    have c: "rows (load_files parse fs files) = concat (map (\<lambda>p. rows (loaded parse fs p)) ?ok)"
      if "distinct (map fst cols)"
        and "\<forall>p\<in>set ?ok. columns (loaded parse fs p) = cols \<and>
               (\<forall>r\<in>set (rows (loaded parse fs p)). length r = length cols)"
    proof -
      have "rows (concat_df ?dfs) = concat (map rows ?dfs)"
        using False that by (intro rows_concat_df_same[of _ cols]) auto
      then show ?thesis by (simp add: out comp_def)
    qed
    show ?thesis using a b c by blast
  qed
qed

theorem concat_keeps_every_row_witness:
  "filter (loads parse_dmy ((single_file ''a.csv'' \<lparr>columns = [(''date'', Object), (''state'', Object), (''age_0_5'', Number)],
      rows = [[Str ''01-03-2025'', Str ''Odisha'', Num 4],
              [Str ''2025/03/02'', Str ''Odisha'', Num 5]]\<rparr>)(''b.csv'' := Inr \<lparr>columns = [(''date'', Object), (''state'', Object), (''age_0_5'', Number)],
      rows = [[Str ''01-03-2025'', Str ''Odisha'', Num 4],
              [Str ''2025/03/02'', Str ''Odisha'', Num 5]]\<rparr>)))
      [''a.csv'', ''c.csv'', ''b.csv''] = [''a.csv'', ''b.csv'']
   \<and> rows (load_files parse_dmy ((single_file ''a.csv'' \<lparr>columns = [(''date'', Object), (''state'', Object), (''age_0_5'', Number)],
      rows = [[Str ''01-03-2025'', Str ''Odisha'', Num 4],
              [Str ''2025/03/02'', Str ''Odisha'', Num 5]]\<rparr>)(''b.csv'' := Inr \<lparr>columns = [(''date'', Object), (''state'', Object), (''age_0_5'', Number)],
      rows = [[Str ''01-03-2025'', Str ''Odisha'', Num 4],
              [Str ''2025/03/02'', Str ''Odisha'', Num 5]]\<rparr>))
        [''a.csv'', ''c.csv'', ''b.csv''])
     = rows \<lparr>columns = [(''date'', Datetime), (''state'', Object), (''age_0_5'', Number)],
      rows = [[Date (2025, 3, 1), Str ''Odisha'', Num 4],
              [NA, Str ''Odisha'', Num 5]]\<rparr> @ rows \<lparr>columns = [(''date'', Datetime), (''state'', Object), (''age_0_5'', Number)],
      rows = [[Date (2025, 3, 1), Str ''Odisha'', Num 4],
              [NA, Str ''Odisha'', Num 5]]\<rparr>
   \<and> length (rows (load_files parse_dmy ((single_file ''a.csv'' \<lparr>columns = [(''date'', Object), (''state'', Object), (''age_0_5'', Number)],
      rows = [[Str ''01-03-2025'', Str ''Odisha'', Num 4],
              [Str ''2025/03/02'', Str ''Odisha'', Num 5]]\<rparr>)(''b.csv'' := Inr \<lparr>columns = [(''date'', Object), (''state'', Object), (''age_0_5'', Number)],
      rows = [[Str ''01-03-2025'', Str ''Odisha'', Num 4],
              [Str ''2025/03/02'', Str ''Odisha'', Num 5]]\<rparr>))
        [''a.csv'', ''c.csv'', ''b.csv''])) = 4"
proof -
  let ?A = "\<lparr>columns = [(''date'', Object), (''state'', Object), (''age_0_5'', Number)],
      rows = [[Str ''01-03-2025'', Str ''Odisha'', Num 4],
              [Str ''2025/03/02'', Str ''Odisha'', Num 5]]\<rparr>"
  let ?A1 = "\<lparr>columns = [(''date'', Datetime), (''state'', Object), (''age_0_5'', Number)],
      rows = [[Date (2025, 3, 1), Str ''Odisha'', Num 4],
              [NA, Str ''Odisha'', Num 5]]\<rparr>"
  let ?fs = "(single_file ''a.csv'' ?A)(''b.csv'' := Inr ?A)"
  let ?files = "[''a.csv'', ''c.csv'', ''b.csv'']"
  let ?cols = "[(''date'', Datetime), (''state'', Object), (''age_0_5'', Number)]"
  have la: "load_one parse_dmy ?fs ''a.csv'' = Inr ?A1" by code_simp
  have lb: "load_one parse_dmy ?fs ''b.csv'' = Inr ?A1" by code_simp
  have lc: "load_one parse_dmy ?fs ''c.csv'' = Inl ReadError"
    by (simp add: load_one_def single_file_def)
  have ok: "filter (loads parse_dmy ?fs) ?files = [''a.csv'', ''b.csv'']"
    by (simp add: loads_def la lb lc)
  have ld: "loaded parse_dmy ?fs ''a.csv'' = ?A1" "loaded parse_dmy ?fs ''b.csv'' = ?A1"
    by (simp_all add: loaded_def la lb)
  have d: "distinct (map fst ?cols)" by simp
  have u: "\<forall>p\<in>set (filter (loads parse_dmy ?fs) ?files).
           columns (loaded parse_dmy ?fs p) = ?cols \<and>
           (\<forall>r\<in>set (rows (loaded parse_dmy ?fs p)). length r = length ?cols)"
    unfolding ok by (simp add: ld)
  from concat_keeps_every_row[of parse_dmy ?fs ?files ?cols] d u
  have r: "rows (load_files parse_dmy ?fs ?files)
      = concat (map (\<lambda>p. rows (loaded parse_dmy ?fs p)) (filter (loads parse_dmy ?fs) ?files))"
    by blast
  have r2: "rows (load_files parse_dmy ?fs ?files) = rows ?A1 @ rows ?A1"
    unfolding r ok by (simp add: ld)
  then have "length (rows (load_files parse_dmy ?fs ?files)) = 4" by simp
  with ok r2 show ?thesis by blast
qed

subsection \<open>File discovery\<close>

text \<open>
  C10.  For a walk whose file names are plain, the three path lists are pairwise disjoint.
  The path of a file is in the enrolment list exactly when its name ends in \<open>.csv\<close> and
  contains the enrolment keyword; in the biometric list exactly when it ends in
  \<open>.csv\<close>, does not contain the enrolment keyword and contains the biometric one; in the
  demographic list exactly when it ends in \<open>.csv\<close>, contains neither of these and
  contains the demographic keyword.  So a file without the extension is in no list.
\<close>

theorem scan_categories_disjoint:
  assumes "plain_names walk"
  shows "set (enrol (scan walk)) \<inter> set (bio (scan walk)) = {}
     \<and> set (enrol (scan walk)) \<inter> set (demo (scan walk)) = {}
     \<and> set (bio (scan walk)) \<inter> set (demo (scan walk)) = {}
     \<and> (\<forall>d\<in>set walk. \<forall>f\<in>set (snd d).
          (path_join (fst d) f \<in> set (enrol (scan walk)))
            = (endswith f ''.csv'' \<and> contains ''api_data_aadhar_enrolment'' f)
        \<and> (path_join (fst d) f \<in> set (bio (scan walk)))
            = (endswith f ''.csv'' \<and> \<not> contains ''api_data_aadhar_enrolment'' f
                \<and> contains ''api_data_aadhar_biometric'' f)
        \<and> (path_join (fst d) f \<in> set (demo (scan walk)))
            = (endswith f ''.csv'' \<and> \<not> contains ''api_data_aadhar_enrolment'' f
                \<and> \<not> contains ''api_data_aadhar_biometric'' f
                \<and> contains ''api_data_aadhar_demographic'' f))"
proof -
  have s: "sorted_store (scan walk)" using assms by (rule scan_sorted)
  have e: "is_enrol (basename p)" if "p \<in> set (enrol (scan walk))" for p
    using s that by (simp add: sorted_store_def)
  have b: "is_bio (basename p)" if "p \<in> set (bio (scan walk))" for p
    using s that by (simp add: sorted_store_def)
  have m: "is_demo (basename p)" if "p \<in> set (demo (scan walk))" for p
    using s that by (simp add: sorted_store_def)
  have d1: "set (enrol (scan walk)) \<inter> set (bio (scan walk)) = {}"
    using e b by (auto simp: is_enrol_def is_bio_def)
  have d2: "set (enrol (scan walk)) \<inter> set (demo (scan walk)) = {}"
    using e m by (auto simp: is_enrol_def is_demo_def)
  have d3: "set (bio (scan walk)) \<inter> set (demo (scan walk)) = {}"
    using b m by (auto simp: is_bio_def is_demo_def)
  have c: "(path_join (fst d) f \<in> set (enrol (scan walk))) = is_enrol f
       \<and> (path_join (fst d) f \<in> set (bio (scan walk))) = is_bio f
       \<and> (path_join (fst d) f \<in> set (demo (scan walk))) = is_demo f"
    if "d \<in> set walk" "f \<in> set (snd d)" for d f
  proof -
    from assms that have "CHR ''/'' \<notin> set f" by (auto simp: plain_names_def)
    then have bn: "basename (path_join (fst d) f) = f" by (rule basename_path_join)
    have "is_enrol f \<Longrightarrow> path_join (fst d) f \<in> set (enrol (scan walk))"
      "is_bio f \<Longrightarrow> path_join (fst d) f \<in> set (bio (scan walk))"
      "is_demo f \<Longrightarrow> path_join (fst d) f \<in> set (demo (scan walk))"
      using that by (auto simp: scan_sets)
    moreover have "path_join (fst d) f \<in> set (enrol (scan walk)) \<Longrightarrow> is_enrol f"
      "path_join (fst d) f \<in> set (bio (scan walk)) \<Longrightarrow> is_bio f"
      "path_join (fst d) f \<in> set (demo (scan walk)) \<Longrightarrow> is_demo f"
      using e[of "path_join (fst d) f"] b[of "path_join (fst d) f"] m[of "path_join (fst d) f"]
      by (simp_all add: bn)
    ultimately show ?thesis by blast
  qed
  show ?thesis
    using d1 d2 d3 c unfolding is_enrol_def is_bio_def is_demo_def by blast
qed

theorem scan_categories_disjoint_witness:
  "plain_names [(''data'', [''api_data_aadhar_enrolment_biometric.csv'',
       ''api_data_aadhar_biometric_0.csv'', ''api_data_aadhar_demographic_0.txt'', ''notes.csv''])]
   \<and> scan [(''data'', [''api_data_aadhar_enrolment_biometric.csv'',
       ''api_data_aadhar_biometric_0.csv'', ''api_data_aadhar_demographic_0.txt'', ''notes.csv''])]
     = \<lparr>enrol = [''data/api_data_aadhar_enrolment_biometric.csv''],
        bio = [''data/api_data_aadhar_biometric_0.csv''], demo = []\<rparr>
   \<and> set (enrol (scan [(''data'', [''api_data_aadhar_enrolment_biometric.csv'',
       ''api_data_aadhar_biometric_0.csv'', ''api_data_aadhar_demographic_0.txt'', ''notes.csv''])]))
     \<inter> set (bio (scan [(''data'', [''api_data_aadhar_enrolment_biometric.csv'',
       ''api_data_aadhar_biometric_0.csv'', ''api_data_aadhar_demographic_0.txt'', ''notes.csv''])]))
     = {}"
proof -
  let ?W = "[(''data'', [''api_data_aadhar_enrolment_biometric.csv'',
       ''api_data_aadhar_biometric_0.csv'', ''api_data_aadhar_demographic_0.txt'', ''notes.csv''])]"
  have p: "plain_names ?W" by (simp add: plain_names_def)
  have s: "scan ?W = \<lparr>enrol = [''data/api_data_aadhar_enrolment_biometric.csv''],
        bio = [''data/api_data_aadhar_biometric_0.csv''], demo = []\<rparr>"
    by code_simp
  from scan_categories_disjoint[OF p]
  have "set (enrol (scan ?W)) \<inter> set (bio (scan ?W)) = {}" by blast
  with p s show ?thesis by blast
qed


subsection \<open>Aggregator\<close>

text \<open>
  C8.  The digital ratio of a region should be its demographic-update count divided by its
  biometric-update count plus one.  \<open>q3_urban_rural_divide\<close> computes that for pincodes
  (\<open>q3_ratio_rows\<close> above).  The dashboard's \<open>ratio_df\<close> does not for districts: its
  \<open>sum(numeric_only=True)\<close> adds the pincode column to the counters.  Below, Pune has
  302 demographic and 3 biometric updates, a ratio of 302 / 4; the dashboard's row holds
  822305 and 411004, and the row is kept although its biometric count is not above 100.
\<close>

theorem ratio_df_adds_pincode:
  "ratio_df
     \<lparr>columns = [(''date'', Datetime), (''state'', Object), (''district'', Object),
                 (''pincode'', Number), (''bio_age_5_17'', Number), (''bio_age_17_'', Number)],
      rows = [[Date (2025, 3, 1), Str ''Maharashtra'', Str ''Pune'', Num 411001, Num 1, Num 2]]\<rparr>
     \<lparr>columns = [(''date'', Datetime), (''state'', Object), (''district'', Object),
                 (''pincode'', Number), (''demo_age_5_17'', Number), (''demo_age_17_'', Number)],
      rows = [[Date (2025, 3, 1), Str ''Maharashtra'', Str ''Pune'', Num 411001, Num 2, Num 100],
              [Date (2025, 3, 2), Str ''Maharashtra'', Str ''Pune'', Num 411002, Num 0, Num 200]]\<rparr>
   = Inr [\<lparr>district = Str ''Pune'', Demo = 822305, Bio = 411004,
            Ratio = Some (822305 / 411005)\<rparr>]
   \<and> cell_sum (column ''district'' \<lparr>columns = [(''date'', Datetime), (''state'', Object), (''district'', Object),
                 (''pincode'', Number), (''demo_age_5_17'', Number), (''demo_age_17_'', Number)],
      rows = [[Date (2025, 3, 1), Str ''Maharashtra'', Str ''Pune'', Num 411001, Num 2, Num 100],
              [Date (2025, 3, 2), Str ''Maharashtra'', Str ''Pune'', Num 411002, Num 0, Num 200]]\<rparr>)
        (map num_val (column ''demo_age_5_17'' \<lparr>columns = [(''date'', Datetime), (''state'', Object), (''district'', Object),
                 (''pincode'', Number), (''demo_age_5_17'', Number), (''demo_age_17_'', Number)],
      rows = [[Date (2025, 3, 1), Str ''Maharashtra'', Str ''Pune'', Num 411001, Num 2, Num 100],
              [Date (2025, 3, 2), Str ''Maharashtra'', Str ''Pune'', Num 411002, Num 0, Num 200]]\<rparr>)) (Str ''Pune'')
     + cell_sum (column ''district'' \<lparr>columns = [(''date'', Datetime), (''state'', Object), (''district'', Object),
                 (''pincode'', Number), (''demo_age_5_17'', Number), (''demo_age_17_'', Number)],
      rows = [[Date (2025, 3, 1), Str ''Maharashtra'', Str ''Pune'', Num 411001, Num 2, Num 100],
              [Date (2025, 3, 2), Str ''Maharashtra'', Str ''Pune'', Num 411002, Num 0, Num 200]]\<rparr>)
        (map num_val (column ''demo_age_17_'' \<lparr>columns = [(''date'', Datetime), (''state'', Object), (''district'', Object),
                 (''pincode'', Number), (''demo_age_5_17'', Number), (''demo_age_17_'', Number)],
      rows = [[Date (2025, 3, 1), Str ''Maharashtra'', Str ''Pune'', Num 411001, Num 2, Num 100],
              [Date (2025, 3, 2), Str ''Maharashtra'', Str ''Pune'', Num 411002, Num 0, Num 200]]\<rparr>)) (Str ''Pune'') = 302
   \<and> cell_sum (column ''district'' \<lparr>columns = [(''date'', Datetime), (''state'', Object), (''district'', Object),
                 (''pincode'', Number), (''bio_age_5_17'', Number), (''bio_age_17_'', Number)],
      rows = [[Date (2025, 3, 1), Str ''Maharashtra'', Str ''Pune'', Num 411001, Num 1, Num 2]]\<rparr>)
        (map num_val (column ''bio_age_5_17'' \<lparr>columns = [(''date'', Datetime), (''state'', Object), (''district'', Object),
                 (''pincode'', Number), (''bio_age_5_17'', Number), (''bio_age_17_'', Number)],
      rows = [[Date (2025, 3, 1), Str ''Maharashtra'', Str ''Pune'', Num 411001, Num 1, Num 2]]\<rparr>)) (Str ''Pune'')
     + cell_sum (column ''district'' \<lparr>columns = [(''date'', Datetime), (''state'', Object), (''district'', Object),
                 (''pincode'', Number), (''bio_age_5_17'', Number), (''bio_age_17_'', Number)],
      rows = [[Date (2025, 3, 1), Str ''Maharashtra'', Str ''Pune'', Num 411001, Num 1, Num 2]]\<rparr>)
        (map num_val (column ''bio_age_17_'' \<lparr>columns = [(''date'', Datetime), (''state'', Object), (''district'', Object),
                 (''pincode'', Number), (''bio_age_5_17'', Number), (''bio_age_17_'', Number)],
      rows = [[Date (2025, 3, 1), Str ''Maharashtra'', Str ''Pune'', Num 411001, Num 1, Num 2]]\<rparr>)) (Str ''Pune'') = 3
   \<and> float_div 302 (3 + 1) = Some (151 / 2)"
  by code_simp



end
